theory Spec2Isabelle
  imports Main "HOL-Library.Multiset"
begin

section \<open>Data of the run-history provider\<close>

text \<open>
  The records the GitHub API hands to the action. Only the fields the sources read
  (and the two the provider filters on) are kept. A job's conclusion is \<open>null\<close> until
  the job has completed, hence the option.
\<close>

record job =
  job_name :: string
  job_status :: string
  job_conclusion :: "string option"

record workflow_run =
  run_id :: nat
  run_head_sha :: string
  run_head_commit_id :: string
  run_status :: string
  run_conclusion :: "string option"
  run_head_branch :: string

text \<open>
  The parameters of a run-list request. \<open>index.ts\<close> passes \<open>status\<close>, \<open>branch\<close>, \<open>page\<close>
  and \<open>per_page\<close> in mode A and only \<open>branch\<close> in mode B; the Go sources pass \<open>nil\<close>
  options, that is no filter at all.
\<close>

record runs_query =
  q_owner :: string
  q_repo :: string
  q_branch :: "string option"
  q_status :: "string option"
  q_page :: "nat option"
  q_per_page :: "nat option"

type_synonym provider_error = string

text \<open>
  The API client (\<open>octokit\<close> in TypeScript, \<open>github.Client\<close> in Go): an external
  collaborator, taken as a parameter. A call either fails with the provider's error
  or returns the list of records.
\<close>

record provider =
  listWorkflowRunsForRepo :: "runs_query \<Rightarrow> provider_error + workflow_run list"
  listJobsForWorkflowRun :: "string \<Rightarrow> string \<Rightarrow> nat \<Rightarrow> provider_error + job list"

text \<open>The provider calls a resolution makes, in the order it makes them.\<close>

datatype call =
  ListWorkflowRuns runs_query
  | ListJobs string string nat

text \<open>
  \<open>Error\<close> is TypeScript's \<open>throw new Error(msg)\<close>, \<open>Panic\<close> is Go's \<open>panic(err)\<close>, and
  \<open>IndexOutOfRange i n\<close> is Go's runtime panic on reading index \<open>i\<close> of a slice of
  length \<open>n\<close>.
\<close>

datatype error =
  Error string
  | Panic string
  | IndexOutOfRange nat nat

type_synonym 'a resolution = "call list \<times> (error + 'a)"

definition logged :: "call \<Rightarrow> 'a resolution \<Rightarrow> 'a resolution" where
  "logged c r = (c # fst r, snd r)"

section \<open>Environment and strings\<close>

type_synonym environment = "string \<rightharpoonup> string"

text \<open>\<open>process.env[key]\<close>: \<open>undefined\<close> when the variable is not set.\<close>

definition ghEnv :: "environment \<Rightarrow> string \<Rightarrow> string option" where
  "ghEnv env key = env key"

text \<open>Go's \<open>os.Getenv\<close>: the empty string when the variable is not set.\<close>

definition os_Getenv :: "environment \<Rightarrow> string \<Rightarrow> string" where
  "os_Getenv env key = (case env key of None \<Rightarrow> [] | Some v \<Rightarrow> v)"

text \<open>
  \<open>s.split("/")\<close> in JavaScript and \<open>strings.Split(s, "/")\<close> in Go, for a separator of
  one character: every segment is kept, empty ones too, and the empty string gives
  one empty segment. The result is never empty, so the first case of the inner
  \<open>case\<close> is never taken.
\<close>

fun split_on :: "char \<Rightarrow> string \<Rightarrow> string list" where
  "split_on c [] = [[]]"
| "split_on c (x # xs) =
     (if x = c then [] # split_on c xs
      else (case split_on c xs of
              [] \<Rightarrow> [[x]]
            | s # ss \<Rightarrow> (x # s) # ss))"

text \<open>JavaScript's \<open>xs[i]\<close>: \<open>undefined\<close> out of range.\<close>

definition js_at :: "'a list \<Rightarrow> nat \<Rightarrow> 'a option" where
  "js_at xs i = (if i < length xs then Some (xs ! i) else None)"

section \<open>Branch resolver\<close>

text \<open>
  \<open>getCurrentBranchName\<close> of \<open>index.ts\<close>. \<open>!headRef\<close> and \<open>!ref\<close> hold for \<open>undefined\<close>
  and for the empty string. The optional chain \<open>ghEnv("GITHUB_REF")?.split("/")[2]\<close> is
  \<open>undefined\<close> when the variable is not set.
\<close>

definition getCurrentBranchName :: "environment \<Rightarrow> error + string" where
  "getCurrentBranchName env =
     (if ghEnv env ''GITHUB_EVENT_NAME'' = Some ''pull_request'' then
        (case ghEnv env ''GITHUB_HEAD_REF'' of
           None \<Rightarrow> Inl (Error ''Could not get branch name from GITHUB_HEAD_REF'')
         | Some headRef \<Rightarrow>
             if headRef = [] then Inl (Error ''Could not get branch name from GITHUB_HEAD_REF'')
             else Inr headRef)
      else
        (case (case ghEnv env ''GITHUB_REF'' of
                 None \<Rightarrow> None
               | Some r \<Rightarrow> js_at (split_on CHR ''/'' r) 2) of
           None \<Rightarrow> Inl (Error ''Could not get branch name from GITHUB_REF'')
         | Some ref \<Rightarrow>
             if ref = [] then Inl (Error ''Could not get branch name from GITHUB_REF'')
             else Inr ref))"

text \<open>
  \<open>getCurrentBranchName\<close> of the Go source: the environment variable as it is, with no
  split and no failure.
\<close>

definition go_getCurrentBranchName :: "environment \<Rightarrow> string" where
  "go_getCurrentBranchName env =
     (if os_Getenv env ''GITHUB_EVENT_NAME'' = ''pull_request''
      then os_Getenv env ''GITHUB_HEAD_REF''
      else os_Getenv env ''GITHUB_REF'')"

section \<open>Commit resolver, TypeScript\<close>

text \<open>Mode A: \<open>handleWorkflowRunSha\<close>.\<close>

definition latest_success_query :: "string \<Rightarrow> string \<Rightarrow> string \<Rightarrow> runs_query" where
  "latest_success_query owner repo currentBranchName =
     \<lparr>q_owner = owner, q_repo = repo, q_branch = Some currentBranchName,
      q_status = Some ''success'', q_page = Some 1, q_per_page = Some 1\<rparr>"

definition handleWorkflowRunSha ::
    "provider \<Rightarrow> string \<Rightarrow> string \<Rightarrow> string \<Rightarrow> string resolution" where
  "handleWorkflowRunSha octokit owner repo currentBranchName =
     (let q = latest_success_query owner repo currentBranchName in
      case listWorkflowRunsForRepo octokit q of
        Inl e \<Rightarrow> ([ListWorkflowRuns q], Inl (Error (''Error getting workflow runs: '' @ e)))
      | Inr workflow_runs \<Rightarrow>
          ([ListWorkflowRuns q],
           (case workflow_runs of
              [] \<Rightarrow> Inr []
            | r # _ \<Rightarrow> Inr (run_head_sha r))))"

text \<open>Mode B: \<open>handleJobSha\<close>. The condition of the inner \<open>if\<close>:\<close>

definition job_succeeded :: "string \<Rightarrow> job \<Rightarrow> bool" where
  "job_succeeded jobName j =
     (job_name j = jobName \<and> job_status j = ''completed'' \<and> job_conclusion j = Some ''success'')"

text \<open>
  The inner loop over the jobs of one run: \<open>Some\<close> is the \<open>return thisRunCommitHash\<close>,
  \<open>None\<close> is the loop running to its end.
\<close>

fun jobs_loop :: "string \<Rightarrow> string \<Rightarrow> job list \<Rightarrow> string option" where
  "jobs_loop jobName thisRunCommitHash [] = None"
| "jobs_loop jobName thisRunCommitHash (j # js) =
     (if job_succeeded jobName j then Some thisRunCommitHash
      else jobs_loop jobName thisRunCommitHash js)"

text \<open>
  The outer loop over the runs. Every run's jobs are fetched, whatever the run's
  status is.
\<close>

fun runs_loop ::
    "provider \<Rightarrow> string \<Rightarrow> string \<Rightarrow> string \<Rightarrow> workflow_run list \<Rightarrow> (string option) resolution" where
  "runs_loop octokit owner repo jobName [] = ([], Inr None)"
| "runs_loop octokit owner repo jobName (workflowRun # rest) =
     (case listJobsForWorkflowRun octokit owner repo (run_id workflowRun) of
        Inl e \<Rightarrow>
          ([ListJobs owner repo (run_id workflowRun)],
           Inl (Error (''Error getting workflow run jobs: '' @ e)))
      | Inr jobs \<Rightarrow>
          (case jobs_loop jobName (run_head_sha workflowRun) jobs of
             Some sha \<Rightarrow> ([ListJobs owner repo (run_id workflowRun)], Inr (Some sha))
           | None \<Rightarrow>
               logged (ListJobs owner repo (run_id workflowRun))
                 (runs_loop octokit owner repo jobName rest)))"

definition branch_query :: "string \<Rightarrow> string \<Rightarrow> string \<Rightarrow> runs_query" where
  "branch_query owner repo currentBranchName =
     \<lparr>q_owner = owner, q_repo = repo, q_branch = Some currentBranchName,
      q_status = None, q_page = None, q_per_page = None\<rparr>"

definition handleJobSha ::
    "provider \<Rightarrow> string \<Rightarrow> string \<Rightarrow> string \<Rightarrow> string \<Rightarrow> string resolution" where
  "handleJobSha octokit owner repo currentBranchName jobName =
     (let q = branch_query owner repo currentBranchName in
      case listWorkflowRunsForRepo octokit q of
        Inl e \<Rightarrow> ([ListWorkflowRuns q], Inl (Error (''Error getting workflow runs: '' @ e)))
      | Inr workflow_runs \<Rightarrow>
          (case runs_loop octokit owner repo jobName workflow_runs of
             (calls, Inl err) \<Rightarrow> (ListWorkflowRuns q # calls, Inl err)
           | (calls, Inr (Some sha)) \<Rightarrow> (ListWorkflowRuns q # calls, Inr sha)
           | (calls, Inr None) \<Rightarrow> (ListWorkflowRuns q # calls, Inr [])))"

text \<open>
  \<open>getSha\<close>. The Actions toolkit is an external collaborator: \<open>core.getInput\<close>,
  \<open>github.getOctokit\<close>, \<open>github.context.repo\<close> and the process environment are the
  fields of the context the action runs in.
\<close>

record action_context =
  core_getInput :: "string \<Rightarrow> bool \<Rightarrow> error + string"
  github_getOctokit :: "string \<Rightarrow> provider"
  github_context_repo :: "error + string \<times> string"
  process_env :: environment

definition getSha :: "action_context \<Rightarrow> string resolution" where
  "getSha ctx =
     (case core_getInput ctx ''job'' False of
        Inl e \<Rightarrow> ([], Inl e)
      | Inr jobName \<Rightarrow>
          (let useLatestSuccessfulWorkflowRun = (jobName = []) in
           case core_getInput ctx ''token'' True of
             Inl e \<Rightarrow> ([], Inl e)
           | Inr token \<Rightarrow>
               (let octokit = github_getOctokit ctx token in
                case github_context_repo ctx of
                  Inl e \<Rightarrow> ([], Inl e)
                | Inr (owner, repo) \<Rightarrow>
                    (case getCurrentBranchName (process_env ctx) of
                       Inl e \<Rightarrow> ([], Inl e)
                     | Inr currentBranchName \<Rightarrow>
                         if useLatestSuccessfulWorkflowRun
                         then handleWorkflowRunSha octokit owner repo currentBranchName
                         else handleJobSha octokit owner repo currentBranchName jobName))))"

section \<open>Commit resolver, Go\<close>

text \<open>
  The getters of go-github are nil-safe: they give the zero value, the empty string,
  for a field that is absent.
\<close>

definition GetConclusion :: "job \<Rightarrow> string" where
  "GetConclusion j = (case job_conclusion j of None \<Rightarrow> [] | Some c \<Rightarrow> c)"

definition go_job_succeeded :: "string \<Rightarrow> job \<Rightarrow> bool" where
  "go_job_succeeded jobName workflowRunJob =
     (job_name workflowRunJob = jobName \<and> job_status workflowRunJob = ''completed''
      \<and> GetConclusion workflowRunJob = ''success'')"

fun go_jobs_loop :: "string \<Rightarrow> workflow_run \<Rightarrow> job list \<Rightarrow> string option" where
  "go_jobs_loop jobName workflowRun [] = None"
| "go_jobs_loop jobName workflowRun (workflowRunJob # js) =
     (if go_job_succeeded jobName workflowRunJob then Some (run_head_commit_id workflowRun)
      else go_jobs_loop jobName workflowRun js)"

text \<open>The outer loop: the jobs of a run are fetched only when the run is completed.\<close>

fun go_runs_loop ::
    "provider \<Rightarrow> string \<Rightarrow> string \<Rightarrow> string \<Rightarrow> workflow_run list \<Rightarrow> (string option) resolution" where
  "go_runs_loop client owner repo jobName [] = ([], Inr None)"
| "go_runs_loop client owner repo jobName (workflowRun # rest) =
     (if run_status workflowRun = ''completed'' then
        (case listJobsForWorkflowRun client owner repo (run_id workflowRun) of
           Inl e \<Rightarrow> ([ListJobs owner repo (run_id workflowRun)], Inl (Panic e))
         | Inr jobs \<Rightarrow>
             (case go_jobs_loop jobName workflowRun jobs of
                Some jobId \<Rightarrow> ([ListJobs owner repo (run_id workflowRun)], Inr (Some jobId))
              | None \<Rightarrow>
                  logged (ListJobs owner repo (run_id workflowRun))
                    (go_runs_loop client owner repo jobName rest)))
      else go_runs_loop client owner repo jobName rest)"

definition all_runs_query :: "string \<Rightarrow> string \<Rightarrow> runs_query" where
  "all_runs_query owner repo =
     \<lparr>q_owner = owner, q_repo = repo, q_branch = None,
      q_status = None, q_page = None, q_per_page = None\<rparr>"

text \<open>
  \<open>getLastSuccessfulWorkflowRunCommit\<close>, the same body in both Go files. \<open>owner_repo[1]\<close>
  and \<open>WorkflowRuns[0]\<close> are slice reads: out of range they panic.
\<close>

definition getLastSuccessfulWorkflowRunCommit ::
    "provider \<Rightarrow> environment \<Rightarrow> string \<Rightarrow> string resolution" where
  "getLastSuccessfulWorkflowRunCommit client env jobName =
     (case split_on CHR ''/'' (os_Getenv env ''GITHUB_REPOSITORY'') of
        [] \<Rightarrow> ([], Inl (IndexOutOfRange 0 0))
      | [owner] \<Rightarrow> ([], Inl (IndexOutOfRange 1 1))
      | owner # repo # _ \<Rightarrow>
          (let q = all_runs_query owner repo in
           case listWorkflowRunsForRepo client q of
             Inl e \<Rightarrow> ([ListWorkflowRuns q], Inl (Panic e))
           | Inr workflowRuns \<Rightarrow>
               (case go_runs_loop client owner repo jobName workflowRuns of
                  (calls, Inl err) \<Rightarrow> (ListWorkflowRuns q # calls, Inl err)
                | (calls, Inr (Some jobId)) \<Rightarrow> (ListWorkflowRuns q # calls, Inr jobId)
                | (calls, Inr None) \<Rightarrow>
                    (ListWorkflowRuns q # calls,
                     (case workflowRuns of
                        [] \<Rightarrow> Inl (IndexOutOfRange 0 0)
                      | newest # _ \<Rightarrow> Inr (run_head_commit_id newest))))))"

section \<open>A provider over a stored history\<close>

text \<open>
  Modelled from the spec: the run-history provider itself (the GitHub API) is not
  part of the repository. The spec gives its shape:
  \<open>list_workflow_runs(owner, repo, branch, status?, page, per_page)\<close> and
  \<open>list_jobs_for_run(owner, repo, run_id)\<close>, paginated, newest first, filterable by
  branch and status. The history is the list of all runs of the repository, newest
  first; a run has the status asked for when its status or its conclusion is that
  value; a request without \<open>page\<close> asks for the first page, and one without
  \<open>per_page\<close> gets the provider's default page size.
\<close>

definition run_has_status :: "string \<Rightarrow> workflow_run \<Rightarrow> bool" where
  "run_has_status s r = (run_status r = s \<or> run_conclusion r = Some s)"

definition query_selects :: "runs_query \<Rightarrow> workflow_run \<Rightarrow> bool" where
  "query_selects q r =
     ((case q_branch q of None \<Rightarrow> True | Some b \<Rightarrow> run_head_branch r = b)
      \<and> (case q_status q of None \<Rightarrow> True | Some s \<Rightarrow> run_has_status s r))"

definition paginate :: "nat \<Rightarrow> runs_query \<Rightarrow> 'a list \<Rightarrow> 'a list" where
  "paginate default_per_page q xs =
     (let per_page = (case q_per_page q of None \<Rightarrow> default_per_page | Some n \<Rightarrow> n);
          page = (case q_page q of None \<Rightarrow> 1 | Some n \<Rightarrow> n)
      in take per_page (drop ((page - 1) * per_page) xs))"

definition history_provider ::
    "nat \<Rightarrow> workflow_run list \<Rightarrow> (nat \<Rightarrow> job list) \<Rightarrow> provider" where
  "history_provider default_per_page history jobs_of =
     \<lparr>listWorkflowRunsForRepo =
        (\<lambda>q. Inr (paginate default_per_page q (filter (query_selects q) history))),
      listJobsForWorkflowRun = (\<lambda>owner repo i. Inr (jobs_of i))\<rparr>"

section \<open>Vocabulary of the properties\<close>

text \<open>
  What the jobs of a run say about a job name, as the provider answers for that run:
  the run \<open>hits\<close> when the fetch succeeds and some job record has the name, the status
  \<open>completed\<close> and the conclusion \<open>success\<close>; it \<open>misses\<close> when the fetch succeeds
  and no job record does.
\<close>

definition run_hits :: "provider \<Rightarrow> string \<Rightarrow> string \<Rightarrow> string \<Rightarrow> workflow_run \<Rightarrow> bool" where
  "run_hits p owner repo jobName r =
     (case listJobsForWorkflowRun p owner repo (run_id r) of
        Inl e \<Rightarrow> False
      | Inr js \<Rightarrow> list_ex (job_succeeded jobName) js)"

definition run_misses :: "provider \<Rightarrow> string \<Rightarrow> string \<Rightarrow> string \<Rightarrow> workflow_run \<Rightarrow> bool" where
  "run_misses p owner repo jobName r =
     (case listJobsForWorkflowRun p owner repo (run_id r) of
        Inl e \<Rightarrow> False
      | Inr js \<Rightarrow> \<not> list_ex (job_succeeded jobName) js)"

definition completed :: "workflow_run \<Rightarrow> bool" where
  "completed r = (run_status r = ''completed'')"

definition jobs_call :: "string \<Rightarrow> string \<Rightarrow> workflow_run \<Rightarrow> call" where
  "jobs_call owner repo r = ListJobs owner repo (run_id r)"

definition call_fails :: "provider \<Rightarrow> call \<Rightarrow> bool" where
  "call_fails p c =
     (case c of
        ListWorkflowRuns q \<Rightarrow> isl (listWorkflowRunsForRepo p q)
      | ListJobs owner repo i \<Rightarrow> isl (listJobsForWorkflowRun p owner repo i))"

text \<open>
  Two providers that answer alike up to the order of the job records within a run.
\<close>

definition jobs_reordered :: "provider \<Rightarrow> provider \<Rightarrow> bool" where
  "jobs_reordered p p' =
     (listWorkflowRunsForRepo p = listWorkflowRunsForRepo p'
      \<and> (\<forall>owner repo i.
            rel_sum (=) (\<lambda>js js'. mset js = mset js')
              (listJobsForWorkflowRun p owner repo i) (listJobsForWorkflowRun p' owner repo i)))"

text \<open>
  A resolution aborted at its first failed call: the result is an error, the last
  call made is one that fails, and no call before it fails.
\<close>

definition aborted_at_failure :: "provider \<Rightarrow> 'a resolution \<Rightarrow> bool" where
  "aborted_at_failure p R =
     (isl (snd R) \<and> call_fails p (last (fst R)) \<and> \<not> list_ex (call_fails p) (butlast (fst R)))"

text \<open>The segments of a split, put together again with the separator between them.\<close>

fun join_with :: "char \<Rightarrow> string list \<Rightarrow> string" where
  "join_with c [] = []"
| "join_with c [s] = s"
| "join_with c (s # t # ss) = s @ c # join_with c (t # ss)"

section \<open>Example histories\<close>

definition build_ok :: job where
  "build_ok = \<lparr>job_name = ''build'', job_status = ''completed'', job_conclusion = Some ''success''\<rparr>"

definition build_failed :: job where
  "build_failed = \<lparr>job_name = ''build'', job_status = ''completed'', job_conclusion = Some ''failure''\<rparr>"

definition deploy_running :: job where
  "deploy_running = \<lparr>job_name = ''deploy'', job_status = ''in_progress'', job_conclusion = None\<rparr>"

definition run1 :: workflow_run where
  "run1 = \<lparr>run_id = 1, run_head_sha = ''c1'', run_head_commit_id = ''c1'',
     run_status = ''completed'', run_conclusion = Some ''success'', run_head_branch = ''main''\<rparr>"

definition run2 :: workflow_run where
  "run2 = \<lparr>run_id = 2, run_head_sha = ''c2'', run_head_commit_id = ''c2'',
     run_status = ''completed'', run_conclusion = Some ''success'', run_head_branch = ''main''\<rparr>"

definition run3 :: workflow_run where
  "run3 = \<lparr>run_id = 3, run_head_sha = ''c3'', run_head_commit_id = ''c3'',
     run_status = ''completed'', run_conclusion = Some ''failure'', run_head_branch = ''main''\<rparr>"

text \<open>A run still in progress in which the job \<open>build\<close> has already succeeded.\<close>

definition run4 :: workflow_run where
  "run4 = \<lparr>run_id = 4, run_head_sha = ''c4'', run_head_commit_id = ''c4'',
     run_status = ''in_progress'', run_conclusion = None, run_head_branch = ''main''\<rparr>"

text \<open>A successful run on another branch.\<close>

definition run5 :: workflow_run where
  "run5 = \<lparr>run_id = 5, run_head_sha = ''c5'', run_head_commit_id = ''c5'',
     run_status = ''completed'', run_conclusion = Some ''success'', run_head_branch = ''other''\<rparr>"

definition example_jobs :: "nat \<Rightarrow> job list" where
  "example_jobs i =
     (if i = 1 then [build_ok]
      else if i = 2 then [build_failed, build_ok]
      else if i = 3 then [build_failed]
      else if i = 4 then [build_ok, deploy_running]
      else if i = 5 then [build_ok]
      else [])"

text \<open>The same jobs, those of run 2 in the other order.\<close>

definition example_jobs_reordered :: "nat \<Rightarrow> job list" where
  "example_jobs_reordered i = (if i = 2 then [build_ok, build_failed] else example_jobs i)"

definition fixed_provider :: "workflow_run list \<Rightarrow> (nat \<Rightarrow> job list) \<Rightarrow> provider" where
  "fixed_provider runs jobs_of =
     \<lparr>listWorkflowRunsForRepo = (\<lambda>q. Inr runs),
      listJobsForWorkflowRun = (\<lambda>owner repo i. Inr (jobs_of i))\<rparr>"

text \<open>A provider whose run-list call fails, and one whose job-list call fails for run 3.\<close>

definition runs_failing_provider :: provider where
  "runs_failing_provider =
     \<lparr>listWorkflowRunsForRepo = (\<lambda>q. Inl ''rate limit''),
      listJobsForWorkflowRun = (\<lambda>owner repo i. Inr (example_jobs i))\<rparr>"

definition jobs_failing_provider :: provider where
  "jobs_failing_provider =
     \<lparr>listWorkflowRunsForRepo = (\<lambda>q. Inr [run4, run3, run2]),
      listJobsForWorkflowRun =
        (\<lambda>owner repo i. if i = 3 then Inl ''timeout'' else if i = 4 then Inr [deploy_running] else Inr (example_jobs i))\<rparr>"

definition push_env :: environment where
  "push_env =
     [''GITHUB_EVENT_NAME'' \<mapsto> ''push'', ''GITHUB_REF'' \<mapsto> ''refs/heads/main'',
      ''GITHUB_REPOSITORY'' \<mapsto> ''o/r'']"

definition pull_request_env :: environment where
  "pull_request_env =
     [''GITHUB_EVENT_NAME'' \<mapsto> ''pull_request'', ''GITHUB_HEAD_REF'' \<mapsto> ''feature-x'',
      ''GITHUB_REF'' \<mapsto> ''refs/pull/7/merge'']"

definition slash_env :: environment where
  "slash_env = [''GITHUB_EVENT_NAME'' \<mapsto> ''push'', ''GITHUB_REF'' \<mapsto> ''refs/heads/feature/x'']"

definition empty_segment_env :: environment where
  "empty_segment_env = [''GITHUB_EVENT_NAME'' \<mapsto> ''push'', ''GITHUB_REF'' \<mapsto> ''refs/heads//x'']"

definition trailing_slash_env :: environment where
  "trailing_slash_env = [''GITHUB_EVENT_NAME'' \<mapsto> ''push'', ''GITHUB_REF'' \<mapsto> ''refs/heads/'']"

definition short_ref_env :: environment where
  "short_ref_env = [''GITHUB_EVENT_NAME'' \<mapsto> ''push'', ''GITHUB_REF'' \<mapsto> ''refs/heads'']"

definition pull_request_no_head_env :: environment where
  "pull_request_no_head_env =
     [''GITHUB_EVENT_NAME'' \<mapsto> ''pull_request'', ''GITHUB_REF'' \<mapsto> ''refs/pull/7/merge'']"

definition example_context :: "string \<Rightarrow> provider \<Rightarrow> action_context" where
  "example_context job p =
     \<lparr>core_getInput = (\<lambda>name required. if name = ''job'' then Inr job else Inr ''t''),
      github_getOctokit = (\<lambda>token. p),
      github_context_repo = Inr (''o'', ''r''),
      process_env = push_env\<rparr>"

section \<open>The loops, step by step\<close>

text \<open>
  Both job loops stop at the first job record that has the name, the status
  \<open>completed\<close> and the conclusion \<open>success\<close>: what they return depends only on
  whether such a record is in the list.
\<close>

lemma jobs_loop_eq:
  "jobs_loop jobName sha js = (if list_ex (job_succeeded jobName) js then Some sha else None)"
  by (induction js) simp_all

lemma go_job_succeeded_eq: "go_job_succeeded jobName j = job_succeeded jobName j"
  by (cases "job_conclusion j") (auto simp: go_job_succeeded_def job_succeeded_def GetConclusion_def)

lemma go_jobs_loop_eq:
  "go_jobs_loop jobName r js =
     (if list_ex (job_succeeded jobName) js then Some (run_head_commit_id r) else None)"
  by (induction js) (simp_all add: go_job_succeeded_eq)


lemma runs_loop_step_miss:
  "run_misses p owner repo jobName x \<Longrightarrow>
   runs_loop p owner repo jobName (x # rest) =
     logged (jobs_call owner repo x) (runs_loop p owner repo jobName rest)"
  by (cases "listJobsForWorkflowRun p owner repo (run_id x)")
     (simp_all add: run_misses_def jobs_loop_eq jobs_call_def)

lemma runs_loop_step_fail:
  "listJobsForWorkflowRun p owner repo (run_id x) = Inl e \<Longrightarrow>
   runs_loop p owner repo jobName (x # rest) =
     ([jobs_call owner repo x], Inl (Error (''Error getting workflow run jobs: '' @ e)))"
  by (simp add: jobs_call_def)


lemma runs_loop_miss:
  assumes "list_all (run_misses p owner repo jobName) runs"
  shows "runs_loop p owner repo jobName runs = (map (jobs_call owner repo) runs, Inr None)"
  using assms
  by (induction runs) (simp_all add: runs_loop_step_miss logged_def del: runs_loop.simps(2))

lemma runs_loop_fail:
  assumes "list_all (run_misses p owner repo jobName) newer"
    and "listJobsForWorkflowRun p owner repo (run_id r) = Inl e"
  shows "runs_loop p owner repo jobName (newer @ r # older) =
           (map (jobs_call owner repo) (newer @ [r]),
            Inl (Error (''Error getting workflow run jobs: '' @ e)))"
  using assms
  by (induction newer) (simp_all add: runs_loop_step_fail runs_loop_step_miss logged_def del: runs_loop.simps(2))

lemma go_runs_loop_step_skip:
  "\<not> completed x \<Longrightarrow>
   go_runs_loop p owner repo jobName (x # rest) = go_runs_loop p owner repo jobName rest"
  by (simp add: completed_def)

lemma go_runs_loop_step_hit:
  "completed x \<Longrightarrow> run_hits p owner repo jobName x \<Longrightarrow>
   go_runs_loop p owner repo jobName (x # rest) =
     ([jobs_call owner repo x], Inr (Some (run_head_commit_id x)))"
  by (cases "listJobsForWorkflowRun p owner repo (run_id x)")
     (simp_all add: run_hits_def go_jobs_loop_eq jobs_call_def completed_def)

lemma go_runs_loop_step_miss:
  "completed x \<Longrightarrow> run_misses p owner repo jobName x \<Longrightarrow>
   go_runs_loop p owner repo jobName (x # rest) =
     logged (jobs_call owner repo x) (go_runs_loop p owner repo jobName rest)"
  by (cases "listJobsForWorkflowRun p owner repo (run_id x)")
     (simp_all add: run_misses_def go_jobs_loop_eq jobs_call_def completed_def)

lemma go_runs_loop_step_fail:
  "completed x \<Longrightarrow> listJobsForWorkflowRun p owner repo (run_id x) = Inl e \<Longrightarrow>
   go_runs_loop p owner repo jobName (x # rest) = ([jobs_call owner repo x], Inl (Panic e))"
  by (simp add: jobs_call_def completed_def)

lemma go_runs_loop_filter:
  "go_runs_loop p owner repo jobName (filter completed runs) =
     go_runs_loop p owner repo jobName runs"
proof (induction runs)
  case Nil
  show ?case by simp
next
  case (Cons x runs)
  show ?case
  proof (cases "completed x")
    case True
    then show ?thesis
      using Cons by (simp add: completed_def split: sum.splits option.splits)
  next
    case False
    then show ?thesis
      using Cons by (simp add: go_runs_loop_step_skip del: go_runs_loop.simps(2))
  qed
qed


lemma go_runs_loop_miss:
  assumes "list_all (\<lambda>x. completed x \<longrightarrow> run_misses p owner repo jobName x) runs"
  shows "go_runs_loop p owner repo jobName runs =
           (map (jobs_call owner repo) (filter completed runs), Inr None)"
  using assms
proof (induction runs)
  case Nil
  then show ?case by simp
next
  case (Cons x runs)
  then show ?case
    by (cases "completed x")
       (simp_all add: go_runs_loop_step_miss go_runs_loop_step_skip logged_def
          del: go_runs_loop.simps(2))
qed

lemma go_runs_loop_fail:
  assumes "list_all (\<lambda>x. completed x \<longrightarrow> run_misses p owner repo jobName x) newer"
    and "listJobsForWorkflowRun p owner repo (run_id r) = Inl e" and "completed r"
  shows "go_runs_loop p owner repo jobName (newer @ r # older) =
           (map (jobs_call owner repo) (filter completed newer @ [r]), Inl (Panic e))"
  using assms
proof (induction newer)
  case Nil
  then show ?case by (simp add: go_runs_loop_step_fail del: go_runs_loop.simps(2))
next
  case (Cons x newer)
  then show ?case
    by (cases "completed x")
       (simp_all add: go_runs_loop_step_miss go_runs_loop_step_skip logged_def
          del: go_runs_loop.simps(2))
qed

section \<open>Mode B returns the newest matching run\<close>




section \<open>Mode A\<close>

lemma take_one_filter:
  "take (Suc 0) (filter P xs) = (case find P xs of None \<Rightarrow> [] | Some x \<Rightarrow> [x])"
  by (induction xs) simp_all

lemma query_selects_latest_success:
  "query_selects (latest_success_query owner repo branch) =
     (\<lambda>r. run_head_branch r = branch \<and> run_has_status ''success'' r)"
  by (simp add: query_selects_def latest_success_query_def fun_eq_iff)

lemma paginate_latest_success:
  "paginate dpp (latest_success_query owner repo branch) xs = take (Suc 0) xs"
  by (simp add: paginate_def latest_success_query_def)

lemma handleWorkflowRunSha_calls:
  "fst (handleWorkflowRunSha p owner repo branch) =
     [ListWorkflowRuns (latest_success_query owner repo branch)]"
  by (simp add: handleWorkflowRunSha_def Let_def split: sum.splits)

lemma handleWorkflowRunSha_history:
  "handleWorkflowRunSha (history_provider dpp history jobs_of) owner repo branch =
     ([ListWorkflowRuns (latest_success_query owner repo branch)],
      Inr (case find (\<lambda>r. run_head_branch r = branch \<and> run_has_status ''success'' r) history of
             None \<Rightarrow> []
           | Some r \<Rightarrow> run_head_sha r))"
  by (simp add: handleWorkflowRunSha_def history_provider_def Let_def
      paginate_latest_success query_selects_latest_success take_one_filter
      split: option.splits)

text \<open>
  Claim C2. Mode A over a history stored newest first returns the head commit hash of
  the first run of the history that is on the branch and has the status \<open>success\<close>,
  or the empty string when there is none. It makes the run-list call and nothing
  else, so no job record is fetched, and two providers that answer run-list calls
  alike give the same resolution whatever their job records are. \<open>getSha\<close> takes this
  path when the \<open>job\<close> input is empty.
\<close>

theorem mode_a_latest_successful_run:
  "handleWorkflowRunSha (history_provider dpp history jobs_of) owner repo branch =
     ([ListWorkflowRuns (latest_success_query owner repo branch)],
      Inr (case find (\<lambda>r. run_head_branch r = branch \<and> run_has_status ''success'' r) history of
             None \<Rightarrow> []
           | Some r \<Rightarrow> run_head_sha r))
   \<and> fst (handleWorkflowRunSha p owner repo branch) =
        [ListWorkflowRuns (latest_success_query owner repo branch)]
   \<and> (listWorkflowRunsForRepo p = listWorkflowRunsForRepo p' \<longrightarrow>
        handleWorkflowRunSha p owner repo branch = handleWorkflowRunSha p' owner repo branch)
   \<and> (core_getInput ctx ''job'' False = Inr []
        \<and> core_getInput ctx ''token'' True = Inr token
        \<and> github_context_repo ctx = Inr (owner, repo)
        \<and> getCurrentBranchName (process_env ctx) = Inr branch \<longrightarrow>
        getSha ctx = handleWorkflowRunSha (github_getOctokit ctx token) owner repo branch)"
proof (intro conjI impI)
  show "handleWorkflowRunSha (history_provider dpp history jobs_of) owner repo branch =
     ([ListWorkflowRuns (latest_success_query owner repo branch)],
      Inr (case find (\<lambda>r. run_head_branch r = branch \<and> run_has_status ''success'' r) history of
             None \<Rightarrow> []
           | Some r \<Rightarrow> run_head_sha r))"
    by (rule handleWorkflowRunSha_history)
  show "fst (handleWorkflowRunSha p owner repo branch) =
        [ListWorkflowRuns (latest_success_query owner repo branch)]"
    by (rule handleWorkflowRunSha_calls)
  show "handleWorkflowRunSha p owner repo branch = handleWorkflowRunSha p' owner repo branch"
    if "listWorkflowRunsForRepo p = listWorkflowRunsForRepo p'"
    using that by (simp add: handleWorkflowRunSha_def)
  show "getSha ctx = handleWorkflowRunSha (github_getOctokit ctx token) owner repo branch"
    if "core_getInput ctx ''job'' False = Inr []
        \<and> core_getInput ctx ''token'' True = Inr token
        \<and> github_context_repo ctx = Inr (owner, repo)
        \<and> getCurrentBranchName (process_env ctx) = Inr branch"
    using that by (simp add: getSha_def)
qed


theorem mode_a_latest_successful_run_witness:
  "handleWorkflowRunSha (history_provider 30 [run4, run3, run5, run2, run1] example_jobs)
      ''o'' ''r'' ''main'' =
     ([ListWorkflowRuns (latest_success_query ''o'' ''r'' ''main'')], Inr ''c2'')
   \<and> handleWorkflowRunSha (history_provider 30 [run4, run3, run5, run2, run1] example_jobs)
        ''o'' ''r'' ''main'' =
      handleWorkflowRunSha (history_provider 30 [run4, run3, run5, run2, run1] example_jobs_reordered)
        ''o'' ''r'' ''main''
   \<and> handleWorkflowRunSha (history_provider 30 [run4, run3] example_jobs) ''o'' ''r'' ''main'' =
     ([ListWorkflowRuns (latest_success_query ''o'' ''r'' ''main'')], Inr [])
   \<and> getSha (example_context [] (history_provider 30 [run4, run3, run5, run2, run1] example_jobs)) =
     ([ListWorkflowRuns (latest_success_query ''o'' ''r'' ''main'')], Inr ''c2'')"
proof -
  let ?h = "[run4, run3, run5, run2, run1]"
  let ?ctx = "example_context [] (history_provider 30 ?h example_jobs)"
  have same: "listWorkflowRunsForRepo (history_provider 30 ?h example_jobs) =
      listWorkflowRunsForRepo (history_provider 30 ?h example_jobs_reordered)"
    by (simp add: history_provider_def)
  have branch: "getCurrentBranchName (process_env ?ctx) = Inr ''main''"
    by (simp add: example_context_def getCurrentBranchName_def ghEnv_def push_env_def js_at_def)
  have ctx: "core_getInput ?ctx ''job'' False = Inr []"
    "core_getInput ?ctx ''token'' True = Inr ''t''"
    "github_context_repo ?ctx = Inr (''o'', ''r'')"
    "github_getOctokit ?ctx ''t'' = history_provider 30 ?h example_jobs"
    by (simp_all add: example_context_def)
  have found: "find (\<lambda>r. run_head_branch r = ''main'' \<and> run_has_status ''success'' r) ?h = Some run2"
    by (simp add: run_has_status_def run1_def run2_def run3_def run4_def run5_def)
  have none: "find (\<lambda>r. run_head_branch r = ''main'' \<and> run_has_status ''success'' r) [run4, run3] = None"
    by (simp add: run_has_status_def run3_def run4_def)
  have sha: "run_head_sha run2 = ''c2''"
    by (simp add: run2_def)
  from mode_a_latest_successful_run
    [of 30 ?h example_jobs "''o''" "''r''" "''main''" "history_provider 30 ?h example_jobs"
       "history_provider 30 ?h example_jobs_reordered" ?ctx "''t''"]
    mode_a_latest_successful_run
    [of 30 "[run4, run3]" example_jobs "''o''" "''r''" "''main''" "history_provider 30 ?h example_jobs"
       "history_provider 30 ?h example_jobs_reordered" ?ctx "''t''"]
  show ?thesis
    using same branch ctx found none sha by simp
qed

section \<open>The order of the jobs within a run\<close>

lemma jobs_loop_mset:
  assumes "mset js = mset js'"
  shows "jobs_loop jobName sha js = jobs_loop jobName sha js'"
proof -
  from assms have "set js = set js'"
    by (rule mset_eq_setD)
  then show ?thesis
    by (simp add: jobs_loop_eq list_ex_iff)
qed

lemma go_jobs_loop_mset:
  assumes "mset js = mset js'"
  shows "go_jobs_loop jobName r js = go_jobs_loop jobName r js'"
proof -
  from assms have "set js = set js'"
    by (rule mset_eq_setD)
  then show ?thesis
    by (simp add: go_jobs_loop_eq list_ex_iff)
qed

lemma jobs_reorderedD:
  assumes "jobs_reordered p p'"
  shows "(\<exists>e. listJobsForWorkflowRun p owner repo i = Inl e
            \<and> listJobsForWorkflowRun p' owner repo i = Inl e)
       \<or> (\<exists>js js'. listJobsForWorkflowRun p owner repo i = Inr js
            \<and> listJobsForWorkflowRun p' owner repo i = Inr js' \<and> mset js = mset js')"
proof -
  from assms have "rel_sum (=) (\<lambda>js js'. mset js = mset js')
      (listJobsForWorkflowRun p owner repo i) (listJobsForWorkflowRun p' owner repo i)"
    by (simp add: jobs_reordered_def)
  then show ?thesis
    by (cases rule: rel_sum.cases) simp_all
qed

lemma runs_loop_reordered:
  assumes "jobs_reordered p p'"
  shows "runs_loop p owner repo jobName runs = runs_loop p' owner repo jobName runs"
proof (induction runs)
  case Nil
  show ?case by simp
next
  case (Cons x runs)
  from jobs_reorderedD [OF assms, of owner repo "run_id x"] show ?case
  proof (elim disjE exE conjE)
    fix e
    assume "listJobsForWorkflowRun p owner repo (run_id x) = Inl e"
      and "listJobsForWorkflowRun p' owner repo (run_id x) = Inl e"
    then show ?thesis by simp
  next
    fix js js'
    assume p: "listJobsForWorkflowRun p owner repo (run_id x) = Inr js"
      and p': "listJobsForWorkflowRun p' owner repo (run_id x) = Inr js'"
      and m: "mset js = mset js'"
    from m have "jobs_loop jobName (run_head_sha x) js = jobs_loop jobName (run_head_sha x) js'"
      by (rule jobs_loop_mset)
    then show ?thesis
      by (simp only: runs_loop.simps p p' sum.case Cons.IH)
  qed
qed

lemma go_runs_loop_reordered:
  assumes "jobs_reordered p p'"
  shows "go_runs_loop p owner repo jobName runs = go_runs_loop p' owner repo jobName runs"
proof (induction runs)
  case Nil
  show ?case by simp
next
  case (Cons x runs)
  from jobs_reorderedD [OF assms, of owner repo "run_id x"] show ?case
  proof (elim disjE exE conjE)
    fix e
    assume "listJobsForWorkflowRun p owner repo (run_id x) = Inl e"
      and "listJobsForWorkflowRun p' owner repo (run_id x) = Inl e"
    then show ?thesis
      by (simp only: go_runs_loop.simps sum.case Cons.IH)
  next
    fix js js'
    assume p: "listJobsForWorkflowRun p owner repo (run_id x) = Inr js"
      and p': "listJobsForWorkflowRun p' owner repo (run_id x) = Inr js'"
      and m: "mset js = mset js'"
    from m have "go_jobs_loop jobName x js = go_jobs_loop jobName x js'"
      by (rule go_jobs_loop_mset)
    then show ?thesis
      by (simp only: go_runs_loop.simps p p' sum.case Cons.IH)
  qed
qed

text \<open>
  Claim C8. Whether a run matches depends on the job records it holds, not on their
  order. A list of job records that holds one with the target name, the status
  \<open>completed\<close> and the conclusion \<open>success\<close> makes the job loop return the run's
  commit, whatever the other records are, also when another record of the same name
  has a different conclusion. Two lists with the same records in another order give
  the same result of the job loop. And two providers that differ only in the order of
  the job records within the runs give the same resolution, the same calls and the
  same commit hash, in \<open>handleJobSha\<close> and in the Go function.
\<close>

theorem job_order_is_irrelevant:
  "(list_ex (job_succeeded jobName) js \<longrightarrow>
      jobs_loop jobName sha js = Some sha
      \<and> go_jobs_loop jobName r js = Some (run_head_commit_id r))
   \<and> (mset js = mset js' \<longrightarrow>
        jobs_loop jobName sha js = jobs_loop jobName sha js'
        \<and> go_jobs_loop jobName r js = go_jobs_loop jobName r js')
   \<and> (jobs_reordered p p' \<longrightarrow>
        handleJobSha p owner repo branch jobName = handleJobSha p' owner repo branch jobName
        \<and> getLastSuccessfulWorkflowRunCommit p env jobName =
            getLastSuccessfulWorkflowRunCommit p' env jobName)"
proof (intro conjI impI)
  assume "list_ex (job_succeeded jobName) js"
  then show "jobs_loop jobName sha js = Some sha"
    and "go_jobs_loop jobName r js = Some (run_head_commit_id r)"
    by (simp_all add: jobs_loop_eq go_jobs_loop_eq)
next
  assume "mset js = mset js'"
  then show "jobs_loop jobName sha js = jobs_loop jobName sha js'"
    and "go_jobs_loop jobName r js = go_jobs_loop jobName r js'"
    by (rule jobs_loop_mset, rule go_jobs_loop_mset)
next
  assume a: "jobs_reordered p p'"
  then have runs: "listWorkflowRunsForRepo p = listWorkflowRunsForRepo p'"
    by (simp add: jobs_reordered_def)
  show "handleJobSha p owner repo branch jobName = handleJobSha p' owner repo branch jobName"
    unfolding handleJobSha_def runs runs_loop_reordered [OF a] by (rule refl)
  show "getLastSuccessfulWorkflowRunCommit p env jobName =
      getLastSuccessfulWorkflowRunCommit p' env jobName"
    unfolding getLastSuccessfulWorkflowRunCommit_def runs go_runs_loop_reordered [OF a]
    by (rule refl)
qed

lemma example_jobs_reordered_mset: "mset (example_jobs i) = mset (example_jobs_reordered i)"
proof (cases "i = 2")
  case True
  then show ?thesis
    by (simp add: example_jobs_reordered_def example_jobs_def add_mset_commute)
next
  case False
  then show ?thesis
    by (simp add: example_jobs_reordered_def)
qed

theorem job_order_is_irrelevant_witness:
  "list_ex (job_succeeded ''build'') [build_failed, build_ok]
   \<and> jobs_loop ''build'' ''c2'' [build_failed, build_ok] = Some ''c2''
   \<and> go_jobs_loop ''build'' run2 [build_failed, build_ok] = Some ''c2''
   \<and> mset [build_failed, build_ok] = mset [build_ok, build_failed]
   \<and> jobs_loop ''build'' ''c2'' [build_failed, build_ok] =
        jobs_loop ''build'' ''c2'' [build_ok, build_failed]
   \<and> go_jobs_loop ''build'' run2 [build_failed, build_ok] =
        go_jobs_loop ''build'' run2 [build_ok, build_failed]
   \<and> jobs_reordered (fixed_provider [run3, run2, run1] example_jobs)
        (fixed_provider [run3, run2, run1] example_jobs_reordered)
   \<and> handleJobSha (fixed_provider [run3, run2, run1] example_jobs_reordered)
        ''o'' ''r'' ''main'' ''build'' =
      ([ListWorkflowRuns (branch_query ''o'' ''r'' ''main''), ListJobs ''o'' ''r'' 3,
        ListJobs ''o'' ''r'' 2], Inr ''c2'')
   \<and> getLastSuccessfulWorkflowRunCommit (fixed_provider [run3, run2, run1] example_jobs_reordered)
        push_env ''build'' =
      ([ListWorkflowRuns (all_runs_query ''o'' ''r''), ListJobs ''o'' ''r'' 3,
        ListJobs ''o'' ''r'' 2], Inr ''c2'')"
proof -
  let ?p = "fixed_provider [run3, run2, run1] example_jobs"
  let ?p' = "fixed_provider [run3, run2, run1] example_jobs_reordered"
  have ex: "list_ex (job_succeeded ''build'') [build_failed, build_ok]"
    by (simp add: job_succeeded_def build_ok_def)
  have perm: "mset [build_failed, build_ok] = mset [build_ok, build_failed]"
    by (simp add: add_mset_commute)
  have re: "jobs_reordered ?p ?p'"
    by (simp add: jobs_reordered_def fixed_provider_def example_jobs_reordered_mset)
  have ts: "handleJobSha ?p ''o'' ''r'' ''main'' ''build'' =
      ([ListWorkflowRuns (branch_query ''o'' ''r'' ''main''), ListJobs ''o'' ''r'' 3,
        ListJobs ''o'' ''r'' 2], Inr ''c2'')"
    by (simp add: handleJobSha_def fixed_provider_def run3_def run2_def run1_def example_jobs_def
        build_ok_def build_failed_def job_succeeded_def logged_def)
  have go: "getLastSuccessfulWorkflowRunCommit ?p push_env ''build'' =
      ([ListWorkflowRuns (all_runs_query ''o'' ''r''), ListJobs ''o'' ''r'' 3,
        ListJobs ''o'' ''r'' 2], Inr ''c2'')"
    by (simp add: getLastSuccessfulWorkflowRunCommit_def fixed_provider_def run3_def run2_def
        run1_def example_jobs_def build_ok_def build_failed_def go_job_succeeded_def
        GetConclusion_def logged_def os_Getenv_def push_env_def)
  have sha: "run_head_commit_id run2 = ''c2''"
    by (simp add: run2_def)
  note inst = job_order_is_irrelevant
    [of "''build''" "[build_failed, build_ok]" "''c2''" run2 "[build_ok, build_failed]"
       ?p ?p' "''o''" "''r''" "''main''" push_env]
  from inst ex have found: "jobs_loop ''build'' ''c2'' [build_failed, build_ok] = Some ''c2''
      \<and> go_jobs_loop ''build'' run2 [build_failed, build_ok] = Some (run_head_commit_id run2)"
    by blast
  from inst perm have swapped: "jobs_loop ''build'' ''c2'' [build_failed, build_ok] =
        jobs_loop ''build'' ''c2'' [build_ok, build_failed]
      \<and> go_jobs_loop ''build'' run2 [build_failed, build_ok] =
        go_jobs_loop ''build'' run2 [build_ok, build_failed]"
    by blast
  from inst re have same:
    "handleJobSha ?p ''o'' ''r'' ''main'' ''build'' = handleJobSha ?p' ''o'' ''r'' ''main'' ''build''
     \<and> getLastSuccessfulWorkflowRunCommit ?p push_env ''build'' =
         getLastSuccessfulWorkflowRunCommit ?p' push_env ''build''"
    by blast
  from found sha have found': "jobs_loop ''build'' ''c2'' [build_failed, build_ok] = Some ''c2''"
    "go_jobs_loop ''build'' run2 [build_failed, build_ok] = Some ''c2''"
    by (simp_all del: jobs_loop.simps go_jobs_loop.simps)
  from same ts go have res:
    "handleJobSha ?p' ''o'' ''r'' ''main'' ''build'' =
      ([ListWorkflowRuns (branch_query ''o'' ''r'' ''main''), ListJobs ''o'' ''r'' 3,
        ListJobs ''o'' ''r'' 2], Inr ''c2'')"
    "getLastSuccessfulWorkflowRunCommit ?p' push_env ''build'' =
      ([ListWorkflowRuns (all_runs_query ''o'' ''r''), ListJobs ''o'' ''r'' 3,
        ListJobs ''o'' ''r'' 2], Inr ''c2'')"
    by simp_all
  from ex found' perm swapped [THEN conjunct1] swapped [THEN conjunct2] re res
  show ?thesis
    by (intro conjI)
qed

section \<open>Provider failures\<close>

lemma aborted_single:
  "call_fails p c \<Longrightarrow> aborted_at_failure p ([c], Inl err)"
  by (simp add: aborted_at_failure_def)

lemma aborted_prepend:
  assumes "\<not> call_fails p c" and "list_ex (call_fails p) calls"
    and "aborted_at_failure p (calls, res)" and "isl res \<Longrightarrow> isl res'"
  shows "aborted_at_failure p (c # calls, res')"
proof -
  from assms(2) have "calls \<noteq> []"
    by auto
  with assms(1,3,4) show ?thesis
    by (simp add: aborted_at_failure_def)
qed

lemma runs_loop_abort:
  assumes "list_ex (call_fails p) (fst (runs_loop p owner repo jobName runs))"
  shows "aborted_at_failure p (runs_loop p owner repo jobName runs)"
  using assms
proof (induction runs)
  case Nil
  then show ?case by simp
next
  case (Cons x runs)
  let ?c = "ListJobs owner repo (run_id x)"
  show ?case
  proof (cases "listJobsForWorkflowRun p owner repo (run_id x)")
    case (Inl e)
    then have "call_fails p ?c"
      by (simp add: call_fails_def)
    with Inl show ?thesis
      by (simp add: aborted_single)
  next
    case (Inr js)
    then have ok: "\<not> call_fails p ?c"
      by (simp add: call_fails_def)
    show ?thesis
    proof (cases "jobs_loop jobName (run_head_sha x) js")
      case (Some sha)
      with Inr ok Cons.prems show ?thesis
        by simp
    next
      case None
      obtain calls res where rest: "runs_loop p owner repo jobName runs = (calls, res)"
        by (cases "runs_loop p owner repo jobName runs")
      from Inr None rest have step:
        "runs_loop p owner repo jobName (x # runs) = (?c # calls, res)"
        by (simp add: logged_def)
      with Cons.prems ok have ex: "list_ex (call_fails p) calls"
        by simp
      with Cons.IH rest have "aborted_at_failure p (calls, res)"
        by simp
      with ok ex show ?thesis
        unfolding step by (rule aborted_prepend)
    qed
  qed
qed

lemma go_runs_loop_abort:
  assumes "list_ex (call_fails p) (fst (go_runs_loop p owner repo jobName runs))"
  shows "aborted_at_failure p (go_runs_loop p owner repo jobName runs)"
  using assms
proof (induction runs)
  case Nil
  then show ?case by simp
next
  case (Cons x runs)
  let ?c = "ListJobs owner repo (run_id x)"
  show ?case
  proof (cases "run_status x = ''completed''")
    case False
    with Cons show ?thesis by simp
  next
    case True
    show ?thesis
    proof (cases "listJobsForWorkflowRun p owner repo (run_id x)")
      case (Inl e)
      then have "call_fails p ?c"
        by (simp add: call_fails_def)
      with Inl True show ?thesis
        by (simp add: aborted_single)
    next
      case (Inr js)
      then have ok: "\<not> call_fails p ?c"
        by (simp add: call_fails_def)
      show ?thesis
      proof (cases "go_jobs_loop jobName x js")
        case (Some sha)
        with Inr ok True Cons.prems show ?thesis
          by simp
      next
        case None
        obtain calls res where rest: "go_runs_loop p owner repo jobName runs = (calls, res)"
          by (cases "go_runs_loop p owner repo jobName runs")
        from Inr None True rest have step:
          "go_runs_loop p owner repo jobName (x # runs) = (?c # calls, res)"
          by (simp add: logged_def)
        with Cons.prems ok have ex: "list_ex (call_fails p) calls"
          by simp
        with Cons.IH rest have "aborted_at_failure p (calls, res)"
          by simp
        with ok ex show ?thesis
          unfolding step by (rule aborted_prepend)
      qed
    qed
  qed
qed

lemma handleWorkflowRunSha_abort:
  assumes "list_ex (call_fails p) (fst (handleWorkflowRunSha p owner repo branch))"
  shows "aborted_at_failure p (handleWorkflowRunSha p owner repo branch)"
proof (cases "listWorkflowRunsForRepo p (latest_success_query owner repo branch)")
  case (Inl e)
  then have "call_fails p (ListWorkflowRuns (latest_success_query owner repo branch))"
    by (simp add: call_fails_def)
  with Inl show ?thesis
    by (simp add: handleWorkflowRunSha_def aborted_single)
next
  case (Inr runs)
  with assms show ?thesis
    by (simp add: handleWorkflowRunSha_def call_fails_def)
qed

lemma handleJobSha_after_list:
  assumes "listWorkflowRunsForRepo p (branch_query owner repo branch) = Inr runs"
  shows "fst (handleJobSha p owner repo branch jobName) =
           ListWorkflowRuns (branch_query owner repo branch)
             # fst (runs_loop p owner repo jobName runs)"
    and "isl (snd (runs_loop p owner repo jobName runs)) \<Longrightarrow>
           isl (snd (handleJobSha p owner repo branch jobName))"
  using assms
  by (auto simp: handleJobSha_def Let_def split: prod.splits sum.splits option.splits)

lemma getLastSuccessfulWorkflowRunCommit_after_list:
  assumes "split_on CHR ''/'' (os_Getenv env ''GITHUB_REPOSITORY'') = owner # repo # others"
    and "listWorkflowRunsForRepo p (all_runs_query owner repo) = Inr runs"
  shows "fst (getLastSuccessfulWorkflowRunCommit p env jobName) =
           ListWorkflowRuns (all_runs_query owner repo)
             # fst (go_runs_loop p owner repo jobName runs)"
    and "isl (snd (go_runs_loop p owner repo jobName runs)) \<Longrightarrow>
           isl (snd (getLastSuccessfulWorkflowRunCommit p env jobName))"
  using assms
  by (auto simp: getLastSuccessfulWorkflowRunCommit_def Let_def
      split: prod.splits sum.splits option.splits)

lemma handleJobSha_abort:
  assumes "list_ex (call_fails p) (fst (handleJobSha p owner repo branch jobName))"
  shows "aborted_at_failure p (handleJobSha p owner repo branch jobName)"
proof (cases "listWorkflowRunsForRepo p (branch_query owner repo branch)")
  case (Inl e)
  then have "call_fails p (ListWorkflowRuns (branch_query owner repo branch))"
    by (simp add: call_fails_def)
  with Inl show ?thesis
    by (simp add: handleJobSha_def aborted_single)
next
  case (Inr runs)
  let ?q = "ListWorkflowRuns (branch_query owner repo branch)"
  let ?loop = "runs_loop p owner repo jobName runs"
  let ?whole = "handleJobSha p owner repo branch jobName"
  from Inr have ok: "\<not> call_fails p ?q"
    by (simp add: call_fails_def)
  note after = handleJobSha_after_list [OF Inr, of jobName]
  from assms ok have ex: "list_ex (call_fails p) (fst ?loop)"
    by (simp add: after(1))
  then have "aborted_at_failure p (fst ?loop, snd ?loop)"
    using runs_loop_abort [of p owner repo jobName runs] by simp
  with ok ex have "aborted_at_failure p (?q # fst ?loop, snd ?whole)"
    by (rule aborted_prepend) (rule after(2))
  then show ?thesis
    by (simp add: after(1) [symmetric])
qed

lemma getLastSuccessfulWorkflowRunCommit_abort:
  assumes "list_ex (call_fails p) (fst (getLastSuccessfulWorkflowRunCommit p env jobName))"
  shows "aborted_at_failure p (getLastSuccessfulWorkflowRunCommit p env jobName)"
proof (cases "split_on CHR ''/'' (os_Getenv env ''GITHUB_REPOSITORY'')")
  case Nil
  with assms show ?thesis
    by (simp add: getLastSuccessfulWorkflowRunCommit_def)
next
  case (Cons owner tail)
  show ?thesis
  proof (cases tail)
    case Nil
    with Cons assms show ?thesis
      by (simp add: getLastSuccessfulWorkflowRunCommit_def)
  next
    case (Cons repo others)
    with \<open>split_on CHR ''/'' (os_Getenv env ''GITHUB_REPOSITORY'') = owner # tail\<close>
    have env: "split_on CHR ''/'' (os_Getenv env ''GITHUB_REPOSITORY'') = owner # repo # others"
      by simp
    let ?q = "ListWorkflowRuns (all_runs_query owner repo)"
    show ?thesis
    proof (cases "listWorkflowRunsForRepo p (all_runs_query owner repo)")
      case (Inl e)
      then have "call_fails p ?q"
        by (simp add: call_fails_def)
      with Inl env show ?thesis
        by (simp add: getLastSuccessfulWorkflowRunCommit_def aborted_single)
    next
      case (Inr runs)
      let ?loop = "go_runs_loop p owner repo jobName runs"
      let ?whole = "getLastSuccessfulWorkflowRunCommit p env jobName"
      from Inr have ok: "\<not> call_fails p ?q"
        by (simp add: call_fails_def)
      note after = getLastSuccessfulWorkflowRunCommit_after_list [OF env Inr, of jobName]
      from assms ok have ex: "list_ex (call_fails p) (fst ?loop)"
        by (simp add: after(1))
      then have "aborted_at_failure p (fst ?loop, snd ?loop)"
        using go_runs_loop_abort [of p owner repo jobName runs] by simp
      with ok ex have "aborted_at_failure p (?q # fst ?loop, snd ?whole)"
        by (rule aborted_prepend) (rule after(2))
      then show ?thesis
        by (simp add: after(1) [symmetric])
    qed
  qed
qed

text \<open>
  Claim C9. A failed provider call aborts the resolution. In mode A, in mode B and in
  the Go function: when a call the resolution makes fails, the result is an error,
  that call is the last one made and no call before it failed, so nothing is called
  after the failure and the failed call is not made again. In particular a failed
  run-list call gives the error after that one call; and when the job-list call fails
  for a run \<open>r\<close> reached by the scan (the job succeeded in no run before it), the
  result is the error after the job-list calls for the runs before \<open>r\<close> and one for
  \<open>r\<close>.
\<close>

theorem provider_failure_aborts:
  "(list_ex (call_fails p) (fst (handleWorkflowRunSha p owner repo branch)) \<longrightarrow>
      aborted_at_failure p (handleWorkflowRunSha p owner repo branch))
   \<and> (list_ex (call_fails p) (fst (handleJobSha p owner repo branch jobName)) \<longrightarrow>
        aborted_at_failure p (handleJobSha p owner repo branch jobName))
   \<and> (list_ex (call_fails p) (fst (getLastSuccessfulWorkflowRunCommit p env jobName)) \<longrightarrow>
        aborted_at_failure p (getLastSuccessfulWorkflowRunCommit p env jobName))
   \<and> (listWorkflowRunsForRepo p (latest_success_query owner repo branch) = Inl e \<longrightarrow>
        handleWorkflowRunSha p owner repo branch =
          ([ListWorkflowRuns (latest_success_query owner repo branch)],
           Inl (Error (''Error getting workflow runs: '' @ e))))
   \<and> (listWorkflowRunsForRepo p (branch_query owner repo branch) = Inl e \<longrightarrow>
        handleJobSha p owner repo branch jobName =
          ([ListWorkflowRuns (branch_query owner repo branch)],
           Inl (Error (''Error getting workflow runs: '' @ e))))
   \<and> (listWorkflowRunsForRepo p (branch_query owner repo branch) = Inr (newer @ r # older)
        \<and> list_all (run_misses p owner repo jobName) newer
        \<and> listJobsForWorkflowRun p owner repo (run_id r) = Inl e \<longrightarrow>
        handleJobSha p owner repo branch jobName =
          (ListWorkflowRuns (branch_query owner repo branch)
             # map (jobs_call owner repo) (newer @ [r]),
           Inl (Error (''Error getting workflow run jobs: '' @ e))))
   \<and> (split_on CHR ''/'' (os_Getenv env ''GITHUB_REPOSITORY'') = owner # repo # others
        \<and> listWorkflowRunsForRepo p (all_runs_query owner repo) = Inl e \<longrightarrow>
        getLastSuccessfulWorkflowRunCommit p env jobName =
          ([ListWorkflowRuns (all_runs_query owner repo)], Inl (Panic e)))
   \<and> (split_on CHR ''/'' (os_Getenv env ''GITHUB_REPOSITORY'') = owner # repo # others
        \<and> listWorkflowRunsForRepo p (all_runs_query owner repo) = Inr (newer @ r # older)
        \<and> list_all (run_misses p owner repo jobName) newer
        \<and> completed r
        \<and> listJobsForWorkflowRun p owner repo (run_id r) = Inl e \<longrightarrow>
        getLastSuccessfulWorkflowRunCommit p env jobName =
          (ListWorkflowRuns (all_runs_query owner repo)
             # map (jobs_call owner repo) (filter completed newer @ [r]),
           Inl (Panic e)))"
proof (intro conjI impI)
  show "aborted_at_failure p (handleWorkflowRunSha p owner repo branch)"
    if "list_ex (call_fails p) (fst (handleWorkflowRunSha p owner repo branch))"
    using that by (rule handleWorkflowRunSha_abort)
  show "aborted_at_failure p (handleJobSha p owner repo branch jobName)"
    if "list_ex (call_fails p) (fst (handleJobSha p owner repo branch jobName))"
    using that by (rule handleJobSha_abort)
  show "aborted_at_failure p (getLastSuccessfulWorkflowRunCommit p env jobName)"
    if "list_ex (call_fails p) (fst (getLastSuccessfulWorkflowRunCommit p env jobName))"
    using that by (rule getLastSuccessfulWorkflowRunCommit_abort)
  show "handleWorkflowRunSha p owner repo branch =
          ([ListWorkflowRuns (latest_success_query owner repo branch)],
           Inl (Error (''Error getting workflow runs: '' @ e)))"
    if "listWorkflowRunsForRepo p (latest_success_query owner repo branch) = Inl e"
    using that by (simp add: handleWorkflowRunSha_def)
  show "handleJobSha p owner repo branch jobName =
          ([ListWorkflowRuns (branch_query owner repo branch)],
           Inl (Error (''Error getting workflow runs: '' @ e)))"
    if "listWorkflowRunsForRepo p (branch_query owner repo branch) = Inl e"
    using that by (simp add: handleJobSha_def)
  show "handleJobSha p owner repo branch jobName =
          (ListWorkflowRuns (branch_query owner repo branch)
             # map (jobs_call owner repo) (newer @ [r]),
           Inl (Error (''Error getting workflow run jobs: '' @ e)))"
    if a: "listWorkflowRunsForRepo p (branch_query owner repo branch) = Inr (newer @ r # older)
        \<and> list_all (run_misses p owner repo jobName) newer
        \<and> listJobsForWorkflowRun p owner repo (run_id r) = Inl e"
  proof -
    from a have "runs_loop p owner repo jobName (newer @ r # older) =
        (map (jobs_call owner repo) (newer @ [r]),
         Inl (Error (''Error getting workflow run jobs: '' @ e)))"
      by (simp add: runs_loop_fail)
    with a show ?thesis
      by (simp add: handleJobSha_def)
  qed
  show "getLastSuccessfulWorkflowRunCommit p env jobName =
          ([ListWorkflowRuns (all_runs_query owner repo)], Inl (Panic e))"
    if "split_on CHR ''/'' (os_Getenv env ''GITHUB_REPOSITORY'') = owner # repo # others
        \<and> listWorkflowRunsForRepo p (all_runs_query owner repo) = Inl e"
    using that by (simp add: getLastSuccessfulWorkflowRunCommit_def)
  show "getLastSuccessfulWorkflowRunCommit p env jobName =
          (ListWorkflowRuns (all_runs_query owner repo)
             # map (jobs_call owner repo) (filter completed newer @ [r]),
           Inl (Panic e))"
    if a: "split_on CHR ''/'' (os_Getenv env ''GITHUB_REPOSITORY'') = owner # repo # others
        \<and> listWorkflowRunsForRepo p (all_runs_query owner repo) = Inr (newer @ r # older)
        \<and> list_all (run_misses p owner repo jobName) newer
        \<and> completed r
        \<and> listJobsForWorkflowRun p owner repo (run_id r) = Inl e"
  proof -
    from a have "list_all (\<lambda>x. completed x \<longrightarrow> run_misses p owner repo jobName x) newer"
      by (simp add: list_all_iff)
    with a have "go_runs_loop p owner repo jobName (newer @ r # older) =
        (map (jobs_call owner repo) (filter completed newer @ [r]), Inl (Panic e))"
      by (simp add: go_runs_loop_fail)
    with a show ?thesis
      by (simp add: getLastSuccessfulWorkflowRunCommit_def)
  qed
qed

theorem provider_failure_aborts_witness:
  "listWorkflowRunsForRepo jobs_failing_provider (branch_query ''o'' ''r'' ''main'') =
      Inr ([run4] @ run3 # [run2])
   \<and> list_all (run_misses jobs_failing_provider ''o'' ''r'' ''build'') [run4]
   \<and> completed run3
   \<and> listJobsForWorkflowRun jobs_failing_provider ''o'' ''r'' (run_id run3) = Inl ''timeout''
   \<and> handleJobSha jobs_failing_provider ''o'' ''r'' ''main'' ''build'' =
        ([ListWorkflowRuns (branch_query ''o'' ''r'' ''main''), ListJobs ''o'' ''r'' 4,
          ListJobs ''o'' ''r'' 3],
         Inl (Error ''Error getting workflow run jobs: timeout''))
   \<and> getLastSuccessfulWorkflowRunCommit jobs_failing_provider push_env ''build'' =
        ([ListWorkflowRuns (all_runs_query ''o'' ''r''), ListJobs ''o'' ''r'' 3],
         Inl (Panic ''timeout''))
   \<and> aborted_at_failure jobs_failing_provider
        (handleJobSha jobs_failing_provider ''o'' ''r'' ''main'' ''build'')
   \<and> aborted_at_failure jobs_failing_provider
        (getLastSuccessfulWorkflowRunCommit jobs_failing_provider push_env ''build'')
   \<and> listWorkflowRunsForRepo runs_failing_provider (latest_success_query ''o'' ''r'' ''main'') =
        Inl ''rate limit''
   \<and> handleWorkflowRunSha runs_failing_provider ''o'' ''r'' ''main'' =
        ([ListWorkflowRuns (latest_success_query ''o'' ''r'' ''main'')],
         Inl (Error ''Error getting workflow runs: rate limit''))
   \<and> handleJobSha runs_failing_provider ''o'' ''r'' ''main'' ''build'' =
        ([ListWorkflowRuns (branch_query ''o'' ''r'' ''main'')],
         Inl (Error ''Error getting workflow runs: rate limit''))
   \<and> getLastSuccessfulWorkflowRunCommit runs_failing_provider push_env ''build'' =
        ([ListWorkflowRuns (all_runs_query ''o'' ''r'')], Inl (Panic ''rate limit''))
   \<and> aborted_at_failure runs_failing_provider
        (handleWorkflowRunSha runs_failing_provider ''o'' ''r'' ''main'')"
proof -
  let ?pj = jobs_failing_provider
  let ?pr = runs_failing_provider
  have runs: "listWorkflowRunsForRepo ?pj q = Inr ([run4] @ run3 # [run2])" for q
    by (simp add: jobs_failing_provider_def)
  have misses: "list_all (run_misses ?pj ''o'' ''r'' ''build'') [run4]"
    by (simp add: run_misses_def jobs_failing_provider_def run4_def job_succeeded_def
        deploy_running_def)
  have c3: "completed run3" and c4: "\<not> completed run4"
    by (simp_all add: completed_def run3_def run4_def)
  have jobs3: "listJobsForWorkflowRun ?pj ''o'' ''r'' (run_id run3) = Inl ''timeout''"
    by (simp add: jobs_failing_provider_def run3_def)
  have env: "split_on CHR ''/'' (os_Getenv push_env ''GITHUB_REPOSITORY'') = ''o'' # ''r'' # []"
    by (simp add: os_Getenv_def push_env_def)
  have fail: "listWorkflowRunsForRepo ?pr q = Inl ''rate limit''" for q
    by (simp add: runs_failing_provider_def)
  have ids: "run_id run4 = 4" "run_id run3 = 3"
    by (simp_all add: run4_def run3_def)
  note j = provider_failure_aborts
    [of ?pj "''o''" "''r''" "''main''" "''build''" push_env "''timeout''" "[run4]" run3 "[run2]" "[]"]
  note r = provider_failure_aborts
    [of ?pr "''o''" "''r''" "''main''" "''build''" push_env "''rate limit''" "[]" run3 "[]" "[]"]
  from j runs misses jobs3 have ts: "handleJobSha ?pj ''o'' ''r'' ''main'' ''build'' =
      (ListWorkflowRuns (branch_query ''o'' ''r'' ''main'')
         # map (jobs_call ''o'' ''r'') ([run4] @ [run3]),
       Inl (Error (''Error getting workflow run jobs: '' @ ''timeout'')))"
    by blast
  from j runs misses jobs3 c3 env
  have go: "getLastSuccessfulWorkflowRunCommit ?pj push_env ''build'' =
      (ListWorkflowRuns (all_runs_query ''o'' ''r'')
         # map (jobs_call ''o'' ''r'') (filter completed [run4] @ [run3]),
       Inl (Panic ''timeout''))"
    by blast
  have ts': "handleJobSha ?pj ''o'' ''r'' ''main'' ''build'' =
        ([ListWorkflowRuns (branch_query ''o'' ''r'' ''main''), ListJobs ''o'' ''r'' 4,
          ListJobs ''o'' ''r'' 3],
         Inl (Error ''Error getting workflow run jobs: timeout''))"
    unfolding ts by (simp add: jobs_call_def ids)
  have go': "getLastSuccessfulWorkflowRunCommit ?pj push_env ''build'' =
        ([ListWorkflowRuns (all_runs_query ''o'' ''r''), ListJobs ''o'' ''r'' 3],
         Inl (Panic ''timeout''))"
    unfolding go by (simp add: jobs_call_def ids c4)
  have failing: "call_fails ?pj (ListJobs ''o'' ''r'' 3)"
    by (simp add: call_fails_def jobs_failing_provider_def)
  from j failing have ab_ts:
    "aborted_at_failure ?pj (handleJobSha ?pj ''o'' ''r'' ''main'' ''build'')"
    by (simp add: ts')
  from j failing have ab_go:
    "aborted_at_failure ?pj (getLastSuccessfulWorkflowRunCommit ?pj push_env ''build'')"
    by (simp add: go')
  from r fail have a: "handleWorkflowRunSha ?pr ''o'' ''r'' ''main'' =
        ([ListWorkflowRuns (latest_success_query ''o'' ''r'' ''main'')],
         Inl (Error (''Error getting workflow runs: '' @ ''rate limit'')))"
    by blast
  from r fail have b: "handleJobSha ?pr ''o'' ''r'' ''main'' ''build'' =
        ([ListWorkflowRuns (branch_query ''o'' ''r'' ''main'')],
         Inl (Error (''Error getting workflow runs: '' @ ''rate limit'')))"
    by blast
  from r fail env have c: "getLastSuccessfulWorkflowRunCommit ?pr push_env ''build'' =
        ([ListWorkflowRuns (all_runs_query ''o'' ''r'')], Inl (Panic ''rate limit''))"
    by blast
  have a': "handleWorkflowRunSha ?pr ''o'' ''r'' ''main'' =
        ([ListWorkflowRuns (latest_success_query ''o'' ''r'' ''main'')],
         Inl (Error ''Error getting workflow runs: rate limit''))"
    unfolding a by simp
  have b': "handleJobSha ?pr ''o'' ''r'' ''main'' ''build'' =
        ([ListWorkflowRuns (branch_query ''o'' ''r'' ''main'')],
         Inl (Error ''Error getting workflow runs: rate limit''))"
    unfolding b by simp
  have "call_fails ?pr (ListWorkflowRuns (latest_success_query ''o'' ''r'' ''main''))"
    by (simp add: call_fails_def fail)
  with r have ab_a: "aborted_at_failure ?pr (handleWorkflowRunSha ?pr ''o'' ''r'' ''main'')"
    by (simp add: a')
  from runs [of "branch_query ''o'' ''r'' ''main''"] misses c3 jobs3 ts' go' ab_ts ab_go
    fail [of "latest_success_query ''o'' ''r'' ''main''"] a' b' c ab_a
  show ?thesis
    by (intro conjI)
qed

section \<open>No runs at all\<close>

lemma query_selects_branch_query:
  "query_selects (branch_query owner repo branch) = (\<lambda>x. run_head_branch x = branch)"
  by (simp add: query_selects_def branch_query_def fun_eq_iff)

lemma set_paginate: "set (paginate dpp q xs) \<subseteq> set xs"
proof -
  have "set (take n (drop m xs)) \<subseteq> set xs" for n m
    using set_take_subset [of n "drop m xs"] set_drop_subset [of m xs] by blast
  then show ?thesis
    by (simp add: paginate_def Let_def)
qed

lemma history_provider_branch_runs:
  "listWorkflowRunsForRepo (history_provider dpp history jobs_of) (branch_query owner repo branch) =
     Inr (paginate dpp (branch_query owner repo branch)
            (filter (\<lambda>x. run_head_branch x = branch) history))"
  by (simp add: history_provider_def query_selects_branch_query)

lemma history_provider_jobs:
  "listJobsForWorkflowRun (history_provider dpp history jobs_of) owner repo i = Inr (jobs_of i)"
  by (simp add: history_provider_def)

lemma runs_loop_cong:
  assumes "\<forall>x\<in>set runs. listJobsForWorkflowRun p owner repo (run_id x) =
                          listJobsForWorkflowRun p' owner repo (run_id x)"
  shows "runs_loop p owner repo jobName runs = runs_loop p' owner repo jobName runs"
  using assms
proof (induction runs)
  case Nil
  show ?case by simp
next
  case (Cons x runs)
  then have here: "listJobsForWorkflowRun p owner repo (run_id x) =
      listJobsForWorkflowRun p' owner repo (run_id x)"
    and rest: "runs_loop p owner repo jobName runs = runs_loop p' owner repo jobName runs"
    by simp_all
  show ?case
    by (simp only: runs_loop.simps here rest)
qed

lemma runs_loop_calls:
  "c \<in> set (fst (runs_loop p owner repo jobName runs)) \<Longrightarrow>
   \<exists>x\<in>set runs. c = jobs_call owner repo x"
proof (induction runs)
  case Nil
  then show ?case by simp
next
  case (Cons x runs)
  then show ?case
    by (auto simp: jobs_call_def logged_def split: sum.splits option.splits)
qed

lemma handleJobSha_empty:
  "listWorkflowRunsForRepo p (branch_query owner repo branch) = Inr [] \<Longrightarrow>
   handleJobSha p owner repo branch jobName =
     ([ListWorkflowRuns (branch_query owner repo branch)], Inr [])"
  by (simp add: handleJobSha_def)

lemma handleWorkflowRunSha_empty:
  "listWorkflowRunsForRepo p (latest_success_query owner repo branch) = Inr [] \<Longrightarrow>
   handleWorkflowRunSha p owner repo branch =
     ([ListWorkflowRuns (latest_success_query owner repo branch)], Inr [])"
  by (simp add: handleWorkflowRunSha_def)

lemma paginate_Nil: "paginate dpp q [] = []"
  by (simp add: paginate_def Let_def)

lemma filter_branch_empty:
  "\<not> list_ex (\<lambda>x. run_head_branch x = branch) history \<Longrightarrow>
   filter (\<lambda>x. run_head_branch x = branch \<and> P x) history = []"
  by (induction history) simp_all

text \<open>
  The TypeScript action on an empty run list. When the provider returns no workflow
  run for the query, the resolution is the empty string and not an error, after that
  one call: in mode A, in mode B, and in \<open>getSha\<close> whatever the \<open>job\<close> input is. Over a
  stored history this is the case whenever the history holds no run on the branch.
\<close>

theorem empty_run_list_gives_empty_string:
  "(listWorkflowRunsForRepo p (latest_success_query owner repo branch) = Inr [] \<longrightarrow>
      handleWorkflowRunSha p owner repo branch =
        ([ListWorkflowRuns (latest_success_query owner repo branch)], Inr []))
   \<and> (listWorkflowRunsForRepo p (branch_query owner repo branch) = Inr [] \<longrightarrow>
        handleJobSha p owner repo branch jobName =
          ([ListWorkflowRuns (branch_query owner repo branch)], Inr []))
   \<and> (\<not> list_ex (\<lambda>x. run_head_branch x = branch) history \<longrightarrow>
        handleWorkflowRunSha (history_provider dpp history jobs_of) owner repo branch =
          ([ListWorkflowRuns (latest_success_query owner repo branch)], Inr [])
        \<and> handleJobSha (history_provider dpp history jobs_of) owner repo branch jobName =
          ([ListWorkflowRuns (branch_query owner repo branch)], Inr []))
   \<and> (core_getInput ctx ''job'' False = Inr jobName
        \<and> core_getInput ctx ''token'' True = Inr token
        \<and> github_context_repo ctx = Inr (owner, repo)
        \<and> getCurrentBranchName (process_env ctx) = Inr branch
        \<and> listWorkflowRunsForRepo (github_getOctokit ctx token)
             (latest_success_query owner repo branch) = Inr []
        \<and> listWorkflowRunsForRepo (github_getOctokit ctx token)
             (branch_query owner repo branch) = Inr [] \<longrightarrow>
        getSha ctx =
          ([ListWorkflowRuns (if jobName = [] then latest_success_query owner repo branch
                              else branch_query owner repo branch)], Inr []))"
proof (intro conjI impI)
  show "handleWorkflowRunSha p owner repo branch =
        ([ListWorkflowRuns (latest_success_query owner repo branch)], Inr [])"
    if "listWorkflowRunsForRepo p (latest_success_query owner repo branch) = Inr []"
    using that by (rule handleWorkflowRunSha_empty)
  show "handleJobSha p owner repo branch jobName =
          ([ListWorkflowRuns (branch_query owner repo branch)], Inr [])"
    if "listWorkflowRunsForRepo p (branch_query owner repo branch) = Inr []"
    using that by (rule handleJobSha_empty)
  show "handleWorkflowRunSha (history_provider dpp history jobs_of) owner repo branch =
          ([ListWorkflowRuns (latest_success_query owner repo branch)], Inr [])"
    if "\<not> list_ex (\<lambda>x. run_head_branch x = branch) history"
    using that
    by (intro handleWorkflowRunSha_empty)
       (simp add: history_provider_def query_selects_latest_success filter_branch_empty paginate_Nil)
  show "handleJobSha (history_provider dpp history jobs_of) owner repo branch jobName =
          ([ListWorkflowRuns (branch_query owner repo branch)], Inr [])"
    if "\<not> list_ex (\<lambda>x. run_head_branch x = branch) history"
    using that filter_branch_empty [of branch history "\<lambda>x. True"]
    by (intro handleJobSha_empty) (simp add: history_provider_branch_runs paginate_Nil)
  show "getSha ctx =
          ([ListWorkflowRuns (if jobName = [] then latest_success_query owner repo branch
                              else branch_query owner repo branch)], Inr [])"
    if "core_getInput ctx ''job'' False = Inr jobName
        \<and> core_getInput ctx ''token'' True = Inr token
        \<and> github_context_repo ctx = Inr (owner, repo)
        \<and> getCurrentBranchName (process_env ctx) = Inr branch
        \<and> listWorkflowRunsForRepo (github_getOctokit ctx token)
             (latest_success_query owner repo branch) = Inr []
        \<and> listWorkflowRunsForRepo (github_getOctokit ctx token)
             (branch_query owner repo branch) = Inr []"
    using that by (simp add: getSha_def handleWorkflowRunSha_empty handleJobSha_empty)
qed

text \<open>
  Claim C5, evaluated on the Go function. When the provider returns no workflow run,
  the loop ends at once and the fallback reads \<open>WorkflowRuns[0]\<close> of the empty slice: the
  function panics with an index out of range after the run-list call, where the
  claim has the empty string and no panic.
\<close>

theorem go_panics_on_empty_run_list:
  "listWorkflowRunsForRepo (fixed_provider [] example_jobs) (all_runs_query ''o'' ''r'') = Inr []
   \<and> getLastSuccessfulWorkflowRunCommit (fixed_provider [] example_jobs) push_env ''build'' =
       ([ListWorkflowRuns (all_runs_query ''o'' ''r'')], Inl (IndexOutOfRange 0 0))"
  by (simp add: getLastSuccessfulWorkflowRunCommit_def fixed_provider_def os_Getenv_def
      push_env_def)

theorem empty_run_list_gives_empty_string_witness:
  "\<not> list_ex (\<lambda>x. run_head_branch x = ''main'') [run5]
   \<and> handleWorkflowRunSha (history_provider 30 [run5] example_jobs) ''o'' ''r'' ''main'' =
        ([ListWorkflowRuns (latest_success_query ''o'' ''r'' ''main'')], Inr [])
   \<and> handleJobSha (history_provider 30 [run5] example_jobs) ''o'' ''r'' ''main'' ''build'' =
        ([ListWorkflowRuns (branch_query ''o'' ''r'' ''main'')], Inr [])
   \<and> listWorkflowRunsForRepo (fixed_provider [] example_jobs)
        (latest_success_query ''o'' ''r'' ''main'') = Inr []
   \<and> listWorkflowRunsForRepo (fixed_provider [] example_jobs)
        (branch_query ''o'' ''r'' ''main'') = Inr []
   \<and> handleWorkflowRunSha (fixed_provider [] example_jobs) ''o'' ''r'' ''main'' =
        ([ListWorkflowRuns (latest_success_query ''o'' ''r'' ''main'')], Inr [])
   \<and> handleJobSha (fixed_provider [] example_jobs) ''o'' ''r'' ''main'' ''build'' =
        ([ListWorkflowRuns (branch_query ''o'' ''r'' ''main'')], Inr [])
   \<and> getSha (example_context ''build'' (fixed_provider [] example_jobs)) =
        ([ListWorkflowRuns (branch_query ''o'' ''r'' ''main'')], Inr [])
   \<and> getSha (example_context [] (fixed_provider [] example_jobs)) =
        ([ListWorkflowRuns (latest_success_query ''o'' ''r'' ''main'')], Inr [])"
proof -
  let ?p = "fixed_provider [] example_jobs"
  have other: "\<not> list_ex (\<lambda>x. run_head_branch x = ''main'') [run5]"
    by (simp add: run5_def)
  have none: "listWorkflowRunsForRepo ?p q = Inr []" for q
    by (simp add: fixed_provider_def)
  have branch: "getCurrentBranchName push_env = Inr ''main''"
    by (simp add: getCurrentBranchName_def ghEnv_def push_env_def js_at_def)
  have ctx: "core_getInput (example_context job ?p) ''job'' False = Inr job"
    "core_getInput (example_context job ?p) ''token'' True = Inr ''t''"
    "github_context_repo (example_context job ?p) = Inr (''o'', ''r'')"
    "github_getOctokit (example_context job ?p) ''t'' = ?p"
    "process_env (example_context job ?p) = push_env" for job
    by (simp_all add: example_context_def)
  note h = empty_run_list_gives_empty_string
    [of ?p "''o''" "''r''" "''main''" "''build''" "[run5]" 30 example_jobs
       "example_context ''build'' ?p" "''t''"]
  note a = empty_run_list_gives_empty_string
    [of ?p "''o''" "''r''" "''main''" "[]" "[run5]" 30 example_jobs
       "example_context [] ?p" "''t''", THEN conjunct2, THEN conjunct2, THEN conjunct2]
  from h other have hist:
    "handleWorkflowRunSha (history_provider 30 [run5] example_jobs) ''o'' ''r'' ''main'' =
        ([ListWorkflowRuns (latest_success_query ''o'' ''r'' ''main'')], Inr [])
     \<and> handleJobSha (history_provider 30 [run5] example_jobs) ''o'' ''r'' ''main'' ''build'' =
        ([ListWorkflowRuns (branch_query ''o'' ''r'' ''main'')], Inr [])"
    by blast
  from h none have direct:
    "handleWorkflowRunSha ?p ''o'' ''r'' ''main'' =
        ([ListWorkflowRuns (latest_success_query ''o'' ''r'' ''main'')], Inr [])"
    "handleJobSha ?p ''o'' ''r'' ''main'' ''build'' =
        ([ListWorkflowRuns (branch_query ''o'' ''r'' ''main'')], Inr [])"
    by blast+
  from h have sha_b: "getSha (example_context ''build'' ?p) =
        ([ListWorkflowRuns (branch_query ''o'' ''r'' ''main'')], Inr [])"
    by (simp add: ctx none branch)
  from a have sha_a: "getSha (example_context [] ?p) =
        ([ListWorkflowRuns (latest_success_query ''o'' ''r'' ''main'')], Inr [])"
    by (simp add: ctx none branch)
  from other hist [THEN conjunct1] hist [THEN conjunct2]
    none [of "latest_success_query ''o'' ''r'' ''main''"] none [of "branch_query ''o'' ''r'' ''main''"]
    direct sha_b sha_a
  show ?thesis
    by (intro conjI)
qed

section \<open>The branch of the run-list query\<close>

lemma handleJobSha_calls:
  assumes "c \<in> set (fst (handleJobSha p owner repo branch jobName))"
  shows "c = ListWorkflowRuns (branch_query owner repo branch) \<or> (\<exists>i. c = ListJobs owner repo i)"
proof (cases "listWorkflowRunsForRepo p (branch_query owner repo branch)")
  case (Inl e)
  with assms show ?thesis
    by (simp add: handleJobSha_def)
next
  case (Inr runs)
  from assms handleJobSha_after_list(1) [OF Inr, of jobName]
  have "c = ListWorkflowRuns (branch_query owner repo branch)
      \<or> c \<in> set (fst (runs_loop p owner repo jobName runs))"
    by simp
  then show ?thesis
    using runs_loop_calls [of c p owner repo jobName runs] by (auto simp: jobs_call_def)
qed

text \<open>
  Claim C6, for the TypeScript action. Mode B asks the provider for the runs of the
  branch only: every run-list call of \<open>handleJobSha\<close> carries the branch. Over a
  stored history the resolution therefore depends only on the runs of that branch and
  on their jobs: two histories with the same runs on the branch, whose jobs agree for
  these runs, give the same calls and the same result, whatever runs and jobs the
  other branches have.
\<close>

theorem typescript_mode_b_sees_only_the_branch:
  "(filter (\<lambda>x. run_head_branch x = branch) history =
      filter (\<lambda>x. run_head_branch x = branch) history'
    \<and> (\<forall>x\<in>set history. run_head_branch x = branch \<longrightarrow> jobs_of (run_id x) = jobs_of' (run_id x))
    \<longrightarrow> handleJobSha (history_provider dpp history jobs_of) owner repo branch jobName =
        handleJobSha (history_provider dpp history' jobs_of') owner repo branch jobName)
   \<and> (\<forall>q. ListWorkflowRuns q \<in> set (fst (handleJobSha p owner repo branch jobName)) \<longrightarrow>
          q_branch q = Some branch)"
proof (intro conjI impI allI)
  assume a: "filter (\<lambda>x. run_head_branch x = branch) history =
      filter (\<lambda>x. run_head_branch x = branch) history'
    \<and> (\<forall>x\<in>set history. run_head_branch x = branch \<longrightarrow> jobs_of (run_id x) = jobs_of' (run_id x))"
  let ?q = "branch_query owner repo branch"
  let ?p = "history_provider dpp history jobs_of"
  let ?p' = "history_provider dpp history' jobs_of'"
  let ?runs = "paginate dpp ?q (filter (\<lambda>x. run_head_branch x = branch) history)"
  have runs: "listWorkflowRunsForRepo ?p ?q = Inr ?runs"
    by (rule history_provider_branch_runs)
  have runs': "listWorkflowRunsForRepo ?p' ?q = Inr ?runs"
    using a by (simp add: history_provider_branch_runs)
  have "\<forall>x\<in>set ?runs. listJobsForWorkflowRun ?p owner repo (run_id x) =
      listJobsForWorkflowRun ?p' owner repo (run_id x)"
  proof
    fix x
    assume "x \<in> set ?runs"
    with set_paginate [of dpp ?q "filter (\<lambda>x. run_head_branch x = branch) history"]
    have "x \<in> set history" and "run_head_branch x = branch"
      by auto
    with a show "listJobsForWorkflowRun ?p owner repo (run_id x) =
        listJobsForWorkflowRun ?p' owner repo (run_id x)"
      by (simp add: history_provider_jobs)
  qed
  then have "runs_loop ?p owner repo jobName ?runs = runs_loop ?p' owner repo jobName ?runs"
    by (rule runs_loop_cong)
  then show "handleJobSha ?p owner repo branch jobName = handleJobSha ?p' owner repo branch jobName"
    unfolding handleJobSha_def runs runs' Let_def sum.case by (simp only:)
next
  fix q
  assume "ListWorkflowRuns q \<in> set (fst (handleJobSha p owner repo branch jobName))"
  from handleJobSha_calls [OF this] show "q_branch q = Some branch"
    by (auto simp: branch_query_def)
qed

text \<open>
  The Go function passes no options to the run-list call, so runs of every branch are
  scanned: on a push to \<open>main\<close>, with a history whose only run is a successful run on
  the branch \<open>other\<close>, it returns that run's commit.
\<close>

theorem go_scans_other_branches:
  "go_getCurrentBranchName push_env = ''refs/heads/main''
   \<and> run_head_branch run5 = ''other''
   \<and> getLastSuccessfulWorkflowRunCommit (history_provider 30 [run5] example_jobs) push_env ''build'' =
       ([ListWorkflowRuns (all_runs_query ''o'' ''r''), ListJobs ''o'' ''r'' 5], Inr ''c5'')"
  by (simp add: getLastSuccessfulWorkflowRunCommit_def history_provider_def os_Getenv_def
      push_env_def go_getCurrentBranchName_def run5_def all_runs_query_def query_selects_def
      paginate_def example_jobs_def build_ok_def go_job_succeeded_def GetConclusion_def)

theorem typescript_mode_b_sees_only_the_branch_witness:
  "filter (\<lambda>x. run_head_branch x = ''main'') [run5, run3, run2, run1] =
     filter (\<lambda>x. run_head_branch x = ''main'') [run3, run2, run1]
   \<and> handleJobSha (history_provider 30 [run3, run2, run1] example_jobs)
        ''o'' ''r'' ''main'' ''build'' =
      ([ListWorkflowRuns (branch_query ''o'' ''r'' ''main''), ListJobs ''o'' ''r'' 3,
        ListJobs ''o'' ''r'' 2], Inr ''c2'')
   \<and> handleJobSha (history_provider 30 [run5, run3, run2, run1] example_jobs)
        ''o'' ''r'' ''main'' ''build'' =
      ([ListWorkflowRuns (branch_query ''o'' ''r'' ''main''), ListJobs ''o'' ''r'' 3,
        ListJobs ''o'' ''r'' 2], Inr ''c2'')
   \<and> q_branch (branch_query ''o'' ''r'' ''main'') = Some ''main''"
proof -
  let ?h = "[run5, run3, run2, run1]"
  let ?h' = "[run3, run2, run1]"
  have same: "filter (\<lambda>x. run_head_branch x = ''main'') ?h =
      filter (\<lambda>x. run_head_branch x = ''main'') ?h'"
    by (simp add: run5_def)
  have jobs: "\<forall>x\<in>set ?h. run_head_branch x = ''main'' \<longrightarrow> example_jobs (run_id x) = example_jobs (run_id x)"
    by simp
  have base: "handleJobSha (history_provider 30 ?h' example_jobs) ''o'' ''r'' ''main'' ''build'' =
      ([ListWorkflowRuns (branch_query ''o'' ''r'' ''main''), ListJobs ''o'' ''r'' 3,
        ListJobs ''o'' ''r'' 2], Inr ''c2'')"
  proof -
    have "paginate 30 (branch_query ''o'' ''r'' ''main'')
        (filter (\<lambda>x. run_head_branch x = ''main'') ?h') = ?h'"
      by (simp add: paginate_def branch_query_def run3_def run2_def run1_def)
    then have runs: "listWorkflowRunsForRepo (history_provider 30 ?h' example_jobs)
        (branch_query ''o'' ''r'' ''main'') = Inr ?h'"
      by (simp only: history_provider_branch_runs)
    show ?thesis
      unfolding handleJobSha_def Let_def runs sum.case
      by (simp add: history_provider_jobs run3_def run2_def
          example_jobs_def build_ok_def build_failed_def job_succeeded_def logged_def)
  qed
  have call: "ListWorkflowRuns (branch_query ''o'' ''r'' ''main'')
      \<in> set (fst (handleJobSha (history_provider 30 ?h' example_jobs) ''o'' ''r'' ''main'' ''build''))"
    by (simp add: base)
  note inst = typescript_mode_b_sees_only_the_branch
    [of "''main''" ?h ?h' example_jobs example_jobs 30 "''o''" "''r''" "''build''"
       "history_provider 30 ?h' example_jobs"]
  from inst same jobs have eq:
    "handleJobSha (history_provider 30 ?h example_jobs) ''o'' ''r'' ''main'' ''build'' =
     handleJobSha (history_provider 30 ?h' example_jobs) ''o'' ''r'' ''main'' ''build''"
    by blast
  from inst call have q: "q_branch (branch_query ''o'' ''r'' ''main'') = Some ''main''"
    by blast
  from same base eq [unfolded base] q show ?thesis
    by (intro conjI)
qed

section \<open>Runs that are not completed\<close>

lemma go_runs_loop_calls:
  "c \<in> set (fst (go_runs_loop p owner repo jobName runs)) \<Longrightarrow>
   \<exists>x\<in>set runs. completed x \<and> c = jobs_call owner repo x"
proof (induction runs)
  case Nil
  then show ?case by simp
next
  case (Cons x runs)
  then show ?case
    by (auto simp: jobs_call_def logged_def completed_def split: sum.splits option.splits if_splits)
qed

lemma go_runs_loop_cong:
  assumes "\<forall>x\<in>set runs. completed x \<longrightarrow>
             listJobsForWorkflowRun p owner repo (run_id x) =
             listJobsForWorkflowRun p' owner repo (run_id x)"
  shows "go_runs_loop p owner repo jobName runs = go_runs_loop p' owner repo jobName runs"
  using assms
proof (induction runs)
  case Nil
  show ?case by simp
next
  case (Cons x runs)
  then have rest: "go_runs_loop p owner repo jobName runs = go_runs_loop p' owner repo jobName runs"
    by simp
  show ?case
  proof (cases "completed x")
    case True
    with Cons.prems have here: "listJobsForWorkflowRun p owner repo (run_id x) =
        listJobsForWorkflowRun p' owner repo (run_id x)"
      by simp
    show ?thesis
      by (simp only: go_runs_loop.simps here rest)
  next
    case False
    then show ?thesis
      by (simp add: go_runs_loop_step_skip rest del: go_runs_loop.simps(2))
  qed
qed

lemma go_runs_loop_Some:
  "snd (go_runs_loop p owner repo jobName runs) = Inr (Some sha) \<Longrightarrow>
   \<exists>x\<in>set runs. completed x \<and> run_hits p owner repo jobName x \<and> sha = run_head_commit_id x"
proof (induction runs)
  case Nil
  then show ?case by simp
next
  case (Cons x runs)
  show ?case
  proof (cases "completed x")
    case False
    with Cons show ?thesis
      by (simp add: go_runs_loop_step_skip del: go_runs_loop.simps(2))
  next
    case True
    show ?thesis
    proof (cases "listJobsForWorkflowRun p owner repo (run_id x)")
      case (Inl e)
      with True Cons.prems show ?thesis
        by (simp add: go_runs_loop_step_fail del: go_runs_loop.simps(2))
    next
      case (Inr js)
      show ?thesis
      proof (cases "list_ex (job_succeeded jobName) js")
        case hit: True
        with Inr have "run_hits p owner repo jobName x"
          by (simp add: run_hits_def)
        with True Cons.prems show ?thesis
          by (simp add: go_runs_loop_step_hit del: go_runs_loop.simps(2))
      next
        case miss: False
        with Inr have "run_misses p owner repo jobName x"
          by (simp add: run_misses_def)
        with True Cons show ?thesis
          by (simp add: go_runs_loop_step_miss logged_def del: go_runs_loop.simps(2))
      qed
    qed
  qed
qed

lemma go_runs_loop_None:
  "snd (go_runs_loop p owner repo jobName runs) = Inr None \<Longrightarrow>
   \<not> list_ex (\<lambda>x. completed x \<and> run_hits p owner repo jobName x) runs"
proof (induction runs)
  case Nil
  then show ?case by simp
next
  case (Cons x runs)
  show ?case
  proof (cases "completed x")
    case False
    with Cons show ?thesis
      by (simp add: go_runs_loop_step_skip del: go_runs_loop.simps(2))
  next
    case True
    show ?thesis
    proof (cases "listJobsForWorkflowRun p owner repo (run_id x)")
      case (Inl e)
      with True Cons.prems show ?thesis
        by (simp add: go_runs_loop_step_fail del: go_runs_loop.simps(2))
    next
      case (Inr js)
      show ?thesis
      proof (cases "list_ex (job_succeeded jobName) js")
        case hit: True
        with Inr have "run_hits p owner repo jobName x"
          by (simp add: run_hits_def)
        with True Cons.prems show ?thesis
          by (simp add: go_runs_loop_step_hit del: go_runs_loop.simps(2))
      next
        case miss: False
        with Inr have m: "run_misses p owner repo jobName x"
          and "\<not> run_hits p owner repo jobName x"
          by (simp_all add: run_misses_def run_hits_def)
        with True Cons show ?thesis
          by (simp add: go_runs_loop_step_miss logged_def del: go_runs_loop.simps(2))
      qed
    qed
  qed
qed

lemma getLastSuccessfulWorkflowRunCommit_result:
  assumes "split_on CHR ''/'' (os_Getenv env ''GITHUB_REPOSITORY'') = owner # repo # others"
    and "listWorkflowRunsForRepo p (all_runs_query owner repo) = Inr runs"
    and "snd (getLastSuccessfulWorkflowRunCommit p env jobName) = Inr sha"
  shows "snd (go_runs_loop p owner repo jobName runs) = Inr (Some sha)
       \<or> (snd (go_runs_loop p owner repo jobName runs) = Inr None
          \<and> (\<exists>newest rest. runs = newest # rest \<and> sha = run_head_commit_id newest))"
  using assms
  by (auto simp: getLastSuccessfulWorkflowRunCommit_def Let_def
      split: prod.splits sum.splits option.splits list.splits)

text \<open>
  Claim C4, for the scan of the Go function. A run whose status is not \<open>completed\<close> is
  skipped: the scan of a run list is the scan of its completed runs, every job-list
  call it makes is for a completed run of the list, and the answers of the provider
  for the other runs do not influence it. A commit hash found by the scan is the head
  commit of a completed run in which the job succeeded. The function as a whole
  returns either such a commit or, when no completed run has the job succeeding, the
  head commit of the newest run of the list, whatever the status of that run is.
\<close>

theorem go_scan_skips_unfinished_runs:
  "go_runs_loop p owner repo jobName runs =
     go_runs_loop p owner repo jobName (filter completed runs)
   \<and> (\<forall>c\<in>set (fst (go_runs_loop p owner repo jobName runs)).
         \<exists>x\<in>set runs. completed x \<and> c = jobs_call owner repo x)
   \<and> ((\<forall>x\<in>set runs. completed x \<longrightarrow>
          listJobsForWorkflowRun p owner repo (run_id x) =
          listJobsForWorkflowRun p' owner repo (run_id x)) \<longrightarrow>
        go_runs_loop p owner repo jobName runs = go_runs_loop p' owner repo jobName runs)
   \<and> (snd (go_runs_loop p owner repo jobName runs) = Inr (Some sha) \<longrightarrow>
        (\<exists>x\<in>set runs. completed x \<and> run_hits p owner repo jobName x
                       \<and> sha = run_head_commit_id x))
   \<and> (split_on CHR ''/'' (os_Getenv env ''GITHUB_REPOSITORY'') = owner # repo # others
        \<and> listWorkflowRunsForRepo p (all_runs_query owner repo) = Inr runs
        \<and> snd (getLastSuccessfulWorkflowRunCommit p env jobName) = Inr sha \<longrightarrow>
        (\<exists>x\<in>set runs. completed x \<and> run_hits p owner repo jobName x
                       \<and> sha = run_head_commit_id x)
        \<or> (\<not> list_ex (\<lambda>x. completed x \<and> run_hits p owner repo jobName x) runs
            \<and> (\<exists>newest rest. runs = newest # rest \<and> sha = run_head_commit_id newest)))"
proof (intro conjI impI ballI)
  show "go_runs_loop p owner repo jobName runs =
      go_runs_loop p owner repo jobName (filter completed runs)"
    by (rule go_runs_loop_filter [symmetric])
  show "\<exists>x\<in>set runs. completed x \<and> c = jobs_call owner repo x"
    if "c \<in> set (fst (go_runs_loop p owner repo jobName runs))" for c
    using that by (rule go_runs_loop_calls)
  show "go_runs_loop p owner repo jobName runs = go_runs_loop p' owner repo jobName runs"
    if "\<forall>x\<in>set runs. completed x \<longrightarrow>
          listJobsForWorkflowRun p owner repo (run_id x) =
          listJobsForWorkflowRun p' owner repo (run_id x)"
    using that by (rule go_runs_loop_cong)
  show "\<exists>x\<in>set runs. completed x \<and> run_hits p owner repo jobName x \<and> sha = run_head_commit_id x"
    if "snd (go_runs_loop p owner repo jobName runs) = Inr (Some sha)"
    using that by (rule go_runs_loop_Some)
  show "(\<exists>x\<in>set runs. completed x \<and> run_hits p owner repo jobName x
                       \<and> sha = run_head_commit_id x)
        \<or> (\<not> list_ex (\<lambda>x. completed x \<and> run_hits p owner repo jobName x) runs
            \<and> (\<exists>newest rest. runs = newest # rest \<and> sha = run_head_commit_id newest))"
    if a: "split_on CHR ''/'' (os_Getenv env ''GITHUB_REPOSITORY'') = owner # repo # others
        \<and> listWorkflowRunsForRepo p (all_runs_query owner repo) = Inr runs
        \<and> snd (getLastSuccessfulWorkflowRunCommit p env jobName) = Inr sha"
  proof -
    from a have "snd (go_runs_loop p owner repo jobName runs) = Inr (Some sha)
       \<or> (snd (go_runs_loop p owner repo jobName runs) = Inr None
          \<and> (\<exists>newest rest. runs = newest # rest \<and> sha = run_head_commit_id newest))"
      using getLastSuccessfulWorkflowRunCommit_result [of env owner repo others p runs jobName sha]
      by blast
    then show ?thesis
      using go_runs_loop_Some [of p owner repo jobName runs sha]
        go_runs_loop_None [of p owner repo jobName runs]
      by blast
  qed
qed

text \<open>
  The fallback of the Go function returns the commit of a run that is not completed:
  with a run in progress as the newest run and no completed run in which the job
  succeeded, the result is the head commit of the run in progress.
\<close>

theorem go_fallback_returns_unfinished_run:
  "\<not> completed run4
   \<and> getLastSuccessfulWorkflowRunCommit (fixed_provider [run4, run3] example_jobs) push_env ''build'' =
       ([ListWorkflowRuns (all_runs_query ''o'' ''r''), ListJobs ''o'' ''r'' 3],
        Inr (run_head_commit_id run4))"
  by (simp add: getLastSuccessfulWorkflowRunCommit_def fixed_provider_def os_Getenv_def
      push_env_def completed_def run4_def run3_def example_jobs_def build_failed_def
      go_job_succeeded_def GetConclusion_def logged_def)

theorem go_scan_skips_unfinished_runs_witness:
  "\<not> completed run4
   \<and> run_hits (fixed_provider [run4, run3, run2, run1] example_jobs) ''o'' ''r'' ''build'' run4
   \<and> go_runs_loop (fixed_provider [run4, run3, run2, run1] example_jobs) ''o'' ''r'' ''build''
        [run4, run3, run2, run1] =
      ([ListJobs ''o'' ''r'' 3, ListJobs ''o'' ''r'' 2], Inr (Some ''c2''))
   \<and> ListJobs ''o'' ''r'' 4 \<notin> set (fst (go_runs_loop
        (fixed_provider [run4, run3, run2, run1] example_jobs) ''o'' ''r'' ''build''
        [run4, run3, run2, run1]))
   \<and> getLastSuccessfulWorkflowRunCommit (fixed_provider [run4, run3, run2, run1] example_jobs)
        push_env ''build'' =
      ([ListWorkflowRuns (all_runs_query ''o'' ''r''), ListJobs ''o'' ''r'' 3,
        ListJobs ''o'' ''r'' 2], Inr ''c2'')"
proof -
  let ?p = "fixed_provider [run4, run3, run2, run1] example_jobs"
  let ?runs = "[run4, run3, run2, run1]"
  have unfinished: "\<not> completed run4"
    by (simp add: completed_def run4_def)
  have hits: "run_hits ?p ''o'' ''r'' ''build'' run4"
    by (simp add: run_hits_def fixed_provider_def run4_def example_jobs_def job_succeeded_def
        build_ok_def)
  have kept: "filter completed ?runs = [run3, run2, run1]"
    by (simp add: completed_def run4_def run3_def run2_def run1_def)
  have scan: "go_runs_loop ?p ''o'' ''r'' ''build'' [run3, run2, run1] =
      ([ListJobs ''o'' ''r'' 3, ListJobs ''o'' ''r'' 2], Inr (Some ''c2''))"
    by (simp add: fixed_provider_def run3_def run2_def example_jobs_def build_ok_def
        build_failed_def go_job_succeeded_def GetConclusion_def logged_def)
  note inst = go_scan_skips_unfinished_runs
    [of ?p "''o''" "''r''" "''build''" ?runs ?p "''c2''" push_env "[]"]
  from inst have "go_runs_loop ?p ''o'' ''r'' ''build'' ?runs =
      go_runs_loop ?p ''o'' ''r'' ''build'' (filter completed ?runs)"
    by (rule conjunct1)
  then have loop: "go_runs_loop ?p ''o'' ''r'' ''build'' ?runs =
      ([ListJobs ''o'' ''r'' 3, ListJobs ''o'' ''r'' 2], Inr (Some ''c2''))"
    by (simp only: kept scan)
  have never: "ListJobs ''o'' ''r'' 4 \<notin> set (fst (go_runs_loop ?p ''o'' ''r'' ''build'' ?runs))"
    unfolding loop by simp
  have whole: "getLastSuccessfulWorkflowRunCommit ?p push_env ''build'' =
      ([ListWorkflowRuns (all_runs_query ''o'' ''r''), ListJobs ''o'' ''r'' 3,
        ListJobs ''o'' ''r'' 2], Inr ''c2'')"
  proof -
    have runs: "listWorkflowRunsForRepo ?p (all_runs_query ''o'' ''r'') = Inr ?runs"
      by (simp add: fixed_provider_def)
    have env: "split_on CHR ''/'' (os_Getenv push_env ''GITHUB_REPOSITORY'') = [''o'', ''r'']"
      by (simp add: os_Getenv_def push_env_def)
    show ?thesis
      unfolding getLastSuccessfulWorkflowRunCommit_def env list.case Let_def runs sum.case loop
      by simp
  qed
  from unfinished hits loop never whole show ?thesis
    by (intro conjI)
qed

text \<open>
  On a fetched list whose runs are all completed, with the same hash in \<open>head_sha\<close> and
  in the head commit and no failing job-list call, the two loops make the same calls
  and end alike; the two functions then differ in the fallback only.
\<close>

lemma loops_agree_on_completed_runs:
  assumes "list_all completed runs"
    and "list_all (\<lambda>x. run_head_commit_id x = run_head_sha x) runs"
    and "list_all (\<lambda>x. \<not> isl (listJobsForWorkflowRun p owner repo (run_id x))) runs"
  shows "go_runs_loop p owner repo jobName runs = runs_loop p owner repo jobName runs"
  using assms
proof (induction runs)
  case Nil
  show ?case by simp
next
  case (Cons x runs)
  then have rest: "go_runs_loop p owner repo jobName runs = runs_loop p owner repo jobName runs"
    by simp
  from Cons.prems obtain js where js: "listJobsForWorkflowRun p owner repo (run_id x) = Inr js"
    by (cases "listJobsForWorkflowRun p owner repo (run_id x)") simp_all
  from Cons.prems have "go_jobs_loop jobName x js = jobs_loop jobName (run_head_sha x) js"
    by (simp add: go_jobs_loop_eq jobs_loop_eq)
  moreover from Cons.prems have "run_status x = ''completed''"
    by (simp add: completed_def)
  ultimately show ?case
    by (simp only: go_runs_loop.simps runs_loop.simps js rest sum.case simp_thms if_True)
qed

lemma realizations_differ_in_fallback_only:
  assumes "list_all completed runs"
    and "list_all (\<lambda>x. run_head_commit_id x = run_head_sha x) runs"
    and "list_all (\<lambda>x. \<not> isl (listJobsForWorkflowRun p owner repo (run_id x))) runs"
    and "listWorkflowRunsForRepo p (branch_query owner repo branch) = Inr runs"
    and "listWorkflowRunsForRepo p (all_runs_query owner repo) = Inr runs"
    and "split_on CHR ''/'' (os_Getenv env ''GITHUB_REPOSITORY'') = owner # repo # others"
  shows "snd (runs_loop p owner repo jobName runs) = Inr (Some sha) \<Longrightarrow>
           snd (handleJobSha p owner repo branch jobName) = Inr sha
           \<and> snd (getLastSuccessfulWorkflowRunCommit p env jobName) = Inr sha"
    and "snd (runs_loop p owner repo jobName runs) = Inr None \<Longrightarrow>
           snd (handleJobSha p owner repo branch jobName) = Inr []
           \<and> snd (getLastSuccessfulWorkflowRunCommit p env jobName) =
               (case runs of
                  [] \<Rightarrow> Inl (IndexOutOfRange 0 0)
                | newest # _ \<Rightarrow> Inr (run_head_commit_id newest))"
proof -
  note same = loops_agree_on_completed_runs [OF assms(1-3), of jobName]
  show "snd (handleJobSha p owner repo branch jobName) = Inr sha
      \<and> snd (getLastSuccessfulWorkflowRunCommit p env jobName) = Inr sha"
    if "snd (runs_loop p owner repo jobName runs) = Inr (Some sha)"
    using that assms(4-6)
    by (cases "runs_loop p owner repo jobName runs")
       (simp add: handleJobSha_def getLastSuccessfulWorkflowRunCommit_def same)
  show "snd (handleJobSha p owner repo branch jobName) = Inr []
      \<and> snd (getLastSuccessfulWorkflowRunCommit p env jobName) =
          (case runs of
             [] \<Rightarrow> Inl (IndexOutOfRange 0 0)
           | newest # _ \<Rightarrow> Inr (run_head_commit_id newest))"
    if "snd (runs_loop p owner repo jobName runs) = Inr None"
    using that assms(4-6)
    by (cases "runs_loop p owner repo jobName runs")
       (simp add: handleJobSha_def getLastSuccessfulWorkflowRunCommit_def same)
qed

text \<open>
  Claim C3, evaluated where the two realizations part. \<open>handleJobSha\<close> fetches the jobs
  of every run, whatever its status. With a fetched list whose only run is in progress
  and already has the job \<open>build\<close> completed with success, no completed run holds a
  matching job, and \<open>handleJobSha\<close> returns that run's commit, not the empty string.
  With a completed matching run behind the run in progress, \<open>handleJobSha\<close> returns
  the commit of the run in progress and the Go function that of the completed run.
\<close>

theorem typescript_matches_unfinished_run:
  "\<not> list_ex completed [run4]
   \<and> handleJobSha (fixed_provider [run4] example_jobs) ''o'' ''r'' ''main'' ''build'' =
       ([ListWorkflowRuns (branch_query ''o'' ''r'' ''main''), ListJobs ''o'' ''r'' 4], Inr ''c4'')
   \<and> handleJobSha (fixed_provider [run4, run2] example_jobs) ''o'' ''r'' ''main'' ''build'' =
       ([ListWorkflowRuns (branch_query ''o'' ''r'' ''main''), ListJobs ''o'' ''r'' 4], Inr ''c4'')
   \<and> getLastSuccessfulWorkflowRunCommit (fixed_provider [run4, run2] example_jobs)
        push_env ''build'' =
       ([ListWorkflowRuns (all_runs_query ''o'' ''r''), ListJobs ''o'' ''r'' 2], Inr ''c2'')"
  by (simp add: handleJobSha_def getLastSuccessfulWorkflowRunCommit_def fixed_provider_def
      os_Getenv_def push_env_def completed_def run4_def run2_def example_jobs_def
      build_ok_def build_failed_def job_succeeded_def go_job_succeeded_def GetConclusion_def
      logged_def)

section \<open>Branch resolution\<close>

lemma split_on_not_Nil: "split_on c s \<noteq> []"
  by (induction s) (simp_all split: list.splits)

lemma split_on_no_separator: "c \<notin> set s \<Longrightarrow> split_on c s = [s]"
  by (induction s) auto

lemma split_on_append:
  "c \<notin> set s \<Longrightarrow> split_on c (s @ c # rest) = s # split_on c rest"
  by (induction s) auto

lemma split_on_join:
  "segs \<noteq> [] \<Longrightarrow> list_all (\<lambda>s. c \<notin> set s) segs \<Longrightarrow> split_on c (join_with c segs) = segs"
proof (induction c segs rule: join_with.induct)
  case (1 c)
  then show ?case by simp
next
  case (2 c s)
  then show ?case by (simp add: split_on_no_separator)
next
  case (3 c s t ss)
  then show ?case by (simp add: split_on_append)
qed

lemma join_split_on: "join_with c (split_on c s) = s"
proof (induction s)
  case Nil
  show ?case by simp
next
  case (Cons x s)
  obtain seg segs where split: "split_on c s = seg # segs"
    using split_on_not_Nil [of c s] by (cases "split_on c s") auto
  with Cons show ?case
    by (cases segs) auto
qed

lemma split_on_segments: "list_all (\<lambda>seg. c \<notin> set seg) (split_on c s)"
proof (induction s)
  case Nil
  show ?case by simp
next
  case (Cons x s)
  then show ?case
    by (cases "split_on c s") auto
qed

lemma getCurrentBranchName_ref:
  assumes "ghEnv env ''GITHUB_EVENT_NAME'' \<noteq> Some ''pull_request''"
    and "ghEnv env ''GITHUB_REF'' = Some (join_with CHR ''/'' segs)"
    and "segs \<noteq> []" and "list_all (\<lambda>s. CHR ''/'' \<notin> set s) segs"
  shows "getCurrentBranchName env =
           (if length segs < 3 \<or> segs ! 2 = []
            then Inl (Error ''Could not get branch name from GITHUB_REF'')
            else Inr (segs ! 2))"
proof -
  from assms(3,4) have "split_on CHR ''/'' (join_with CHR ''/'' segs) = segs"
    by (rule split_on_join)
  with assms(1,2) show ?thesis
    by (auto simp: getCurrentBranchName_def js_at_def)
qed

text \<open>
  Claim C7, for the TypeScript action. On a pull request event \<open>getCurrentBranchName\<close>
  returns the head ref when it is set and not empty, and fails when it is not set or
  empty. On any other event it takes the ref path apart at the slashes: with at least
  three segments and a third segment that is not empty it returns the third segment;
  it fails when the ref is not set, has fewer than three segments, or has an empty
  third segment. The ref path is given by its segments, none of which holds a slash.
\<close>

theorem typescript_branch_resolution:
  "(ghEnv env ''GITHUB_EVENT_NAME'' = Some ''pull_request''
      \<and> ghEnv env ''GITHUB_HEAD_REF'' = Some headRef \<and> headRef \<noteq> [] \<longrightarrow>
      getCurrentBranchName env = Inr headRef)
   \<and> (ghEnv env ''GITHUB_EVENT_NAME'' = Some ''pull_request''
        \<and> (ghEnv env ''GITHUB_HEAD_REF'' = None \<or> ghEnv env ''GITHUB_HEAD_REF'' = Some []) \<longrightarrow>
        getCurrentBranchName env = Inl (Error ''Could not get branch name from GITHUB_HEAD_REF''))
   \<and> (ghEnv env ''GITHUB_EVENT_NAME'' \<noteq> Some ''pull_request''
        \<and> ghEnv env ''GITHUB_REF'' = Some (join_with CHR ''/'' (a # b # d # rest))
        \<and> list_all (\<lambda>s. CHR ''/'' \<notin> set s) (a # b # d # rest) \<and> d \<noteq> [] \<longrightarrow>
        getCurrentBranchName env = Inr d)
   \<and> (ghEnv env ''GITHUB_EVENT_NAME'' \<noteq> Some ''pull_request''
        \<and> ghEnv env ''GITHUB_REF'' = None \<longrightarrow>
        getCurrentBranchName env = Inl (Error ''Could not get branch name from GITHUB_REF''))
   \<and> (ghEnv env ''GITHUB_EVENT_NAME'' \<noteq> Some ''pull_request''
        \<and> ghEnv env ''GITHUB_REF'' = Some (join_with CHR ''/'' segs)
        \<and> segs \<noteq> [] \<and> list_all (\<lambda>s. CHR ''/'' \<notin> set s) segs
        \<and> (length segs < 3 \<or> segs ! 2 = []) \<longrightarrow>
        getCurrentBranchName env = Inl (Error ''Could not get branch name from GITHUB_REF''))"
proof (intro conjI impI)
  show "getCurrentBranchName env = Inr headRef"
    if "ghEnv env ''GITHUB_EVENT_NAME'' = Some ''pull_request''
      \<and> ghEnv env ''GITHUB_HEAD_REF'' = Some headRef \<and> headRef \<noteq> []"
    using that by (simp add: getCurrentBranchName_def)
  show "getCurrentBranchName env = Inl (Error ''Could not get branch name from GITHUB_HEAD_REF'')"
    if "ghEnv env ''GITHUB_EVENT_NAME'' = Some ''pull_request''
        \<and> (ghEnv env ''GITHUB_HEAD_REF'' = None \<or> ghEnv env ''GITHUB_HEAD_REF'' = Some [])"
    using that by (auto simp: getCurrentBranchName_def)
  show "getCurrentBranchName env = Inr d"
    if "ghEnv env ''GITHUB_EVENT_NAME'' \<noteq> Some ''pull_request''
        \<and> ghEnv env ''GITHUB_REF'' = Some (join_with CHR ''/'' (a # b # d # rest))
        \<and> list_all (\<lambda>s. CHR ''/'' \<notin> set s) (a # b # d # rest) \<and> d \<noteq> []"
    using that getCurrentBranchName_ref [of env "a # b # d # rest"] by simp
  show "getCurrentBranchName env = Inl (Error ''Could not get branch name from GITHUB_REF'')"
    if "ghEnv env ''GITHUB_EVENT_NAME'' \<noteq> Some ''pull_request''
        \<and> ghEnv env ''GITHUB_REF'' = None"
    using that by (simp add: getCurrentBranchName_def)
  show "getCurrentBranchName env = Inl (Error ''Could not get branch name from GITHUB_REF'')"
    if "ghEnv env ''GITHUB_EVENT_NAME'' \<noteq> Some ''pull_request''
        \<and> ghEnv env ''GITHUB_REF'' = Some (join_with CHR ''/'' segs)
        \<and> segs \<noteq> [] \<and> list_all (\<lambda>s. CHR ''/'' \<notin> set s) segs
        \<and> (length segs < 3 \<or> segs ! 2 = [])"
    using that getCurrentBranchName_ref [of env segs] by simp
qed

text \<open>
  The Go function of the same name returns the environment variable as it is: the
  whole ref on a push, and the empty string, with no failure, on a pull request with
  no head ref. In the TypeScript action a ref of three segments whose third segment
  is empty is refused, not resolved to the empty third segment.
\<close>

theorem go_branch_is_the_whole_ref:
  "go_getCurrentBranchName push_env = ''refs/heads/main''
   \<and> go_getCurrentBranchName pull_request_no_head_env = []
   \<and> split_on CHR ''/'' ''refs/heads/'' = [''refs'', ''heads'', []]
   \<and> getCurrentBranchName trailing_slash_env =
       Inl (Error ''Could not get branch name from GITHUB_REF'')"
  by (simp add: go_getCurrentBranchName_def os_Getenv_def push_env_def
      pull_request_no_head_env_def getCurrentBranchName_def ghEnv_def trailing_slash_env_def
      js_at_def)

theorem typescript_branch_resolution_witness:
  "getCurrentBranchName pull_request_env = Inr ''feature-x''
   \<and> getCurrentBranchName pull_request_no_head_env =
       Inl (Error ''Could not get branch name from GITHUB_HEAD_REF'')
   \<and> getCurrentBranchName push_env = Inr ''main''
   \<and> getCurrentBranchName Map.empty = Inl (Error ''Could not get branch name from GITHUB_REF'')
   \<and> getCurrentBranchName short_ref_env =
       Inl (Error ''Could not get branch name from GITHUB_REF'')"
proof -
  have pr: "ghEnv pull_request_env ''GITHUB_EVENT_NAME'' = Some ''pull_request''
      \<and> ghEnv pull_request_env ''GITHUB_HEAD_REF'' = Some ''feature-x'' \<and> ''feature-x'' \<noteq> []"
    by (simp add: ghEnv_def pull_request_env_def)
  have no_head: "ghEnv pull_request_no_head_env ''GITHUB_EVENT_NAME'' = Some ''pull_request''
      \<and> (ghEnv pull_request_no_head_env ''GITHUB_HEAD_REF'' = None
          \<or> ghEnv pull_request_no_head_env ''GITHUB_HEAD_REF'' = Some [])"
    by (simp add: ghEnv_def pull_request_no_head_env_def)
  have push: "ghEnv push_env ''GITHUB_EVENT_NAME'' \<noteq> Some ''pull_request''
      \<and> ghEnv push_env ''GITHUB_REF'' = Some (join_with CHR ''/'' (''refs'' # ''heads'' # ''main'' # []))
      \<and> list_all (\<lambda>s. CHR ''/'' \<notin> set s) (''refs'' # ''heads'' # ''main'' # []) \<and> ''main'' \<noteq> []"
    by (simp add: ghEnv_def push_env_def)
  have unset: "ghEnv Map.empty ''GITHUB_EVENT_NAME'' \<noteq> Some ''pull_request''
      \<and> ghEnv Map.empty ''GITHUB_REF'' = None"
    by (simp add: ghEnv_def)
  have short: "ghEnv short_ref_env ''GITHUB_EVENT_NAME'' \<noteq> Some ''pull_request''
      \<and> ghEnv short_ref_env ''GITHUB_REF'' = Some (join_with CHR ''/'' [''refs'', ''heads''])
      \<and> [''refs'', ''heads''] \<noteq> [] \<and> list_all (\<lambda>s. CHR ''/'' \<notin> set s) [''refs'', ''heads'']
      \<and> (length [''refs'', ''heads''] < 3 \<or> [''refs'', ''heads''] ! 2 = [])"
    by (simp add: ghEnv_def short_ref_env_def)
  from typescript_branch_resolution [of pull_request_env "''feature-x''"] pr
  have 1: "getCurrentBranchName pull_request_env = Inr ''feature-x''"
    by blast
  from typescript_branch_resolution [of pull_request_no_head_env] no_head
  have 2: "getCurrentBranchName pull_request_no_head_env =
      Inl (Error ''Could not get branch name from GITHUB_HEAD_REF'')"
    by blast
  from typescript_branch_resolution [of push_env _ "''refs''" "''heads''" "''main''" "[]"] push
  have 3: "getCurrentBranchName push_env = Inr ''main''"
    by blast
  from typescript_branch_resolution [of Map.empty] unset
  have 4: "getCurrentBranchName Map.empty =
      Inl (Error ''Could not get branch name from GITHUB_REF'')"
    by blast
  from typescript_branch_resolution [of short_ref_env _ _ _ _ _ "[''refs'', ''heads'']"] short
  have 5: "getCurrentBranchName short_ref_env =
      Inl (Error ''Could not get branch name from GITHUB_REF'')"
    by blast
  from 1 2 3 4 5 show ?thesis
    by (intro conjI)
qed

text \<open>
  Claim C10, for refs whose third segment is not empty. On an event that is not a pull
  request, with a ref path of more than three segments, \<open>getCurrentBranchName\<close>
  returns the third segment alone, which is not the branch name made of the third and
  the later segments: \<open>refs/heads/feature/x\<close> gives \<open>feature\<close>, not \<open>feature/x\<close>. When
  the third segment is empty, it fails.
\<close>

theorem slash_branch_is_cut_at_third_segment:
  "(ghEnv env ''GITHUB_EVENT_NAME'' \<noteq> Some ''pull_request''
      \<and> ghEnv env ''GITHUB_REF'' = Some (join_with CHR ''/'' (a # b # d # e # rest))
      \<and> list_all (\<lambda>s. CHR ''/'' \<notin> set s) (a # b # d # e # rest) \<and> d \<noteq> [] \<longrightarrow>
      getCurrentBranchName env = Inr d
      \<and> getCurrentBranchName env \<noteq> Inr (join_with CHR ''/'' (d # e # rest)))
   \<and> (ghEnv env ''GITHUB_EVENT_NAME'' \<noteq> Some ''pull_request''
        \<and> ghEnv env ''GITHUB_REF'' = Some (join_with CHR ''/'' (a # b # [] # e # rest))
        \<and> list_all (\<lambda>s. CHR ''/'' \<notin> set s) (a # b # e # rest) \<longrightarrow>
        getCurrentBranchName env = Inl (Error ''Could not get branch name from GITHUB_REF''))"
proof (intro conjI impI)
  assume h: "ghEnv env ''GITHUB_EVENT_NAME'' \<noteq> Some ''pull_request''
      \<and> ghEnv env ''GITHUB_REF'' = Some (join_with CHR ''/'' (a # b # d # e # rest))
      \<and> list_all (\<lambda>s. CHR ''/'' \<notin> set s) (a # b # d # e # rest) \<and> d \<noteq> []"
  then show third: "getCurrentBranchName env = Inr d"
    using getCurrentBranchName_ref [of env "a # b # d # e # rest"] by simp
  have "d \<noteq> join_with CHR ''/'' (d # e # rest)"
    by simp
  with third show "getCurrentBranchName env \<noteq> Inr (join_with CHR ''/'' (d # e # rest))"
    by simp
next
  assume "ghEnv env ''GITHUB_EVENT_NAME'' \<noteq> Some ''pull_request''
        \<and> ghEnv env ''GITHUB_REF'' = Some (join_with CHR ''/'' (a # b # [] # e # rest))
        \<and> list_all (\<lambda>s. CHR ''/'' \<notin> set s) (a # b # e # rest)"
  then show "getCurrentBranchName env = Inl (Error ''Could not get branch name from GITHUB_REF'')"
    using getCurrentBranchName_ref [of env "a # b # [] # e # rest"] by simp
qed

text \<open>
  A ref path of four segments with an empty third segment is refused: nothing is
  returned for it.
\<close>

theorem empty_third_segment_is_refused:
  "ghEnv empty_segment_env ''GITHUB_EVENT_NAME'' \<noteq> Some ''pull_request''
   \<and> ghEnv empty_segment_env ''GITHUB_REF'' = Some ''refs/heads//x''
   \<and> split_on CHR ''/'' ''refs/heads//x'' = [''refs'', ''heads'', [], ''x'']
   \<and> getCurrentBranchName empty_segment_env =
       Inl (Error ''Could not get branch name from GITHUB_REF'')"
  by (simp add: getCurrentBranchName_def ghEnv_def empty_segment_env_def js_at_def)

theorem slash_branch_is_cut_at_third_segment_witness:
  "ghEnv slash_env ''GITHUB_EVENT_NAME'' \<noteq> Some ''pull_request''
   \<and> ghEnv slash_env ''GITHUB_REF'' = Some ''refs/heads/feature/x''
   \<and> getCurrentBranchName slash_env = Inr ''feature''
   \<and> getCurrentBranchName slash_env \<noteq> Inr ''feature/x''
   \<and> getCurrentBranchName empty_segment_env =
       Inl (Error ''Could not get branch name from GITHUB_REF'')"
proof -
  have ev: "ghEnv slash_env ''GITHUB_EVENT_NAME'' \<noteq> Some ''pull_request''"
    and ref: "ghEnv slash_env ''GITHUB_REF'' = Some ''refs/heads/feature/x''"
    by (simp_all add: ghEnv_def slash_env_def)
  have joined: "join_with CHR ''/'' (''refs'' # ''heads'' # ''feature'' # ''x'' # []) =
      ''refs/heads/feature/x''"
    "join_with CHR ''/'' (''feature'' # ''x'' # []) = ''feature/x''"
    by simp_all
  have segs: "list_all (\<lambda>s. CHR ''/'' \<notin> set s) (''refs'' # ''heads'' # ''feature'' # ''x'' # [])
      \<and> ''feature'' \<noteq> []"
    by simp
  have empty: "ghEnv empty_segment_env ''GITHUB_EVENT_NAME'' \<noteq> Some ''pull_request''
      \<and> ghEnv empty_segment_env ''GITHUB_REF'' =
          Some (join_with CHR ''/'' (''refs'' # ''heads'' # [] # ''x'' # []))
      \<and> list_all (\<lambda>s. CHR ''/'' \<notin> set s) (''refs'' # ''heads'' # ''x'' # [])"
    by (simp add: ghEnv_def empty_segment_env_def)
  from slash_branch_is_cut_at_third_segment
    [of slash_env "''refs''" "''heads''" "''feature''" "''x''" "[]"] ev ref segs
  have cut: "getCurrentBranchName slash_env = Inr ''feature''
      \<and> getCurrentBranchName slash_env \<noteq> Inr (join_with CHR ''/'' (''feature'' # ''x'' # []))"
    unfolding joined by blast
  from slash_branch_is_cut_at_third_segment
    [of empty_segment_env "''refs''" "''heads''" _ "''x''" "[]"] empty
  have refused: "getCurrentBranchName empty_segment_env =
      Inl (Error ''Could not get branch name from GITHUB_REF'')"
    by blast
  from ev ref cut [THEN conjunct1] cut [THEN conjunct2, unfolded joined] refused
  show ?thesis
    by (intro conjI)
qed

end
